theory Spec2Isabelle
  imports Main "HOL-Library.Word"
begin

unbundle bit_operations_syntax

section \<open>Data model (packages/crypto/src/types.ts)\<close>

type_synonym byte = "8 word"
type_synonym buffer = "byte list"

text \<open>
  \<open>TxSecureRecord\<close>. All cryptographic fields are hex strings. The TypeScript type gives
  \<open>alg\<close> and \<open>mk_version\<close> the literal types \<open>"AES-256-GCM"\<close> and \<open>1\<close>; the compiled
  JavaScript receives whatever the storage layer hands over, so they are a string and an
  integer here. The field \<open>id\<close> is called \<open>id_hex\<close> (\<open>id\<close> is the identity function of HOL).
\<close>

record TxSecureRecord =
  id_hex :: string
  partyId :: string
  createdAt :: string
  payload_nonce :: string
  payload_ct :: string
  payload_tag :: string
  dek_wrap_nonce :: string
  dek_wrapped :: string
  dek_wrap_tag :: string
  alg :: string
  mk_version :: int

text \<open>\<open>EncryptRequest\<close> and \<open>DecryptedTx\<close>; \<open>'j\<close> is the type of JSON values.\<close>

record 'j EncryptRequest =
  req_partyId :: string
  req_payload :: 'j

record 'j DecryptedTx =
  tx_partyId :: string
  tx_payload :: 'j
  tx_createdAt :: string

text \<open>
  The two error classes of \<open>types.ts\<close>, each with its message, and \<open>Error\<close> for every
  other exception the platform throws (\<open>SyntaxError\<close> of \<open>JSON.parse\<close>, the errors of
  \<open>createCipheriv\<close>), with its message.
\<close>

datatype error = ValidationError string | DecryptionError string | Error string


fun is_DecryptionError :: "error + 'a \<Rightarrow> bool" where
  "is_DecryptionError (Inl (DecryptionError m)) = True"
| "is_DecryptionError _ = False"

text \<open>Statement sequencing: the second statement runs only if the first did not throw.\<close>

definition and_then :: "error + unit \<Rightarrow> error + 'a \<Rightarrow> error + 'a" where
  "and_then s k = (case s of Inl e \<Rightarrow> Inl e | Inr u \<Rightarrow> k)"

section \<open>The platform: Node.js primitives the module calls\<close>

text \<open>
  The module calls \<open>crypto.createCipheriv\<close>/\<open>createDecipheriv\<close> with \<open>aes-256-gcm\<close>,
  \<open>JSON.stringify\<close>/\<open>JSON.parse\<close> and the UTF-8 codec of \<open>Buffer\<close>. None of them is code
  of the repository; they are parameters of the model.
  \<^item> \<open>aes_gcm_encrypt key nonce data\<close> is \<open>createCipheriv\<close>, \<open>update\<close>, \<open>final\<close>,
    \<open>getAuthTag\<close>: the ciphertext and the tag, or the message of the exception thrown.
  \<^item> \<open>aes_gcm_decrypt key nonce tag ciphertext\<close> is \<open>createDecipheriv\<close>, \<open>setAuthTag\<close>,
    \<open>update\<close>, \<open>final\<close>: the plaintext, or \<open>None\<close> when any of the four throws.
  \<^item> \<open>JSON_stringify\<close> is \<open>None\<close> where \<open>JSON.stringify\<close> throws or returns \<open>undefined\<close>
    (then \<open>Buffer.from\<close> throws a \<open>TypeError\<close>).
  \<^item> \<open>JSON_parse\<close> gives the value or the message of the \<open>SyntaxError\<close>.
\<close>

record 'j node =
  aes_gcm_encrypt :: "buffer \<Rightarrow> buffer \<Rightarrow> buffer \<Rightarrow> string + (buffer \<times> buffer)"
  aes_gcm_decrypt :: "buffer \<Rightarrow> buffer \<Rightarrow> buffer \<Rightarrow> buffer \<Rightarrow> buffer option"
  JSON_stringify :: "'j \<Rightarrow> string option"
  JSON_parse :: "string \<Rightarrow> string + 'j"
  utf8_encode :: "string \<Rightarrow> buffer"
  utf8_decode :: "buffer \<Rightarrow> string"

text \<open>
  \<open>crypto.randomBytes(n)\<close> draws \<open>n\<close> bytes from the entropy source, which is an
  infinite stream of bytes threaded through the calls.
\<close>

type_synonym rng = "nat \<Rightarrow> byte"

definition randomBytes :: "nat \<Rightarrow> rng \<Rightarrow> buffer \<times> rng" where
  "randomBytes n g = (map g [0..<n], \<lambda>i. g (n + i))"

subsection \<open>Hex codec of Buffer\<close>

text \<open>
  \<open>buf.toString("hex")\<close>: two lower-case digits per byte.
\<close>

definition hex_digit :: "nat \<Rightarrow> char" where
  "hex_digit n = ''0123456789abcdef'' ! (n mod 16)"

definition Buffer_toString_hex :: "buffer \<Rightarrow> string" where
  "Buffer_toString_hex bs =
     concat (map (\<lambda>b. [hex_digit (unat b div 16), hex_digit (unat b mod 16)]) bs)"

text \<open>
  \<open>Buffer.from(s, "hex")\<close>: Node decodes pairs of hex digits (either case) from the left
  and stops at the first pair that is not two hex digits; a last unpaired character
  is dropped. It never throws.
\<close>

definition unhex :: "char \<Rightarrow> nat option" where
  "unhex c = (let n = (of_char c :: nat) in
     if 48 \<le> n \<and> n \<le> 57 then Some (n - 48)
     else if 97 \<le> n \<and> n \<le> 102 then Some (n - 87)
     else if 65 \<le> n \<and> n \<le> 70 then Some (n - 55)
     else None)"

fun Buffer_from_hex :: "string \<Rightarrow> buffer" where
  "Buffer_from_hex (a # b # rest) =
     (case unhex a of
        None \<Rightarrow> []
      | Some x \<Rightarrow> (case unhex b of
          None \<Rightarrow> []
        | Some y \<Rightarrow> word_of_nat (16 * x + y) # Buffer_from_hex rest))"
| "Buffer_from_hex [a] = []"
| "Buffer_from_hex [] = []"

text \<open>A number inside a template literal: its decimal digits.\<close>

fun decimal :: "nat \<Rightarrow> string" where
  "decimal n = (if n < 10 then [hex_digit n] else decimal (n div 10) @ [hex_digit (n mod 10)])"

declare decimal.simps [simp del]

text \<open>
  \<open>String.prototype.trim\<close> removes white space and line terminators at both ends. Of
  these, the code units below 256 are 9 to 13, 32 and 160.
\<close>

definition is_js_space :: "char \<Rightarrow> bool" where
  "is_js_space c = ((of_char c :: nat) \<in> {9, 10, 11, 12, 13, 32, 160})"

definition trim :: "string \<Rightarrow> string" where
  "trim s = rev (dropWhile is_js_space (rev (dropWhile is_js_space s)))"

section \<open>packages/crypto/src/encryption.ts\<close>

subsection \<open>Master key\<close>

text \<open>
  What \<open>getMasterKey\<close> reads: \<open>process.env.MASTER_KEY\<close> (\<open>None\<close> when unset) and the
  contents of \<open>KEY_FILE\<close> (\<open>None\<close> when the file does not exist).
\<close>

record process_env =
  env_MASTER_KEY :: "string option"
  key_file :: "string option"

text \<open>
  \<open>getMasterKey\<close> returns the key, and the environment and entropy source as it leaves
  them. An unset and an empty \<open>MASTER_KEY\<close> are both falsy. The function has no
  \<open>throw\<close>.
\<close>

definition getMasterKey :: "process_env \<Rightarrow> rng \<Rightarrow> buffer \<times> process_env \<times> rng" where
  "getMasterKey env g =
     (case (case env_MASTER_KEY env of None \<Rightarrow> None | Some k \<Rightarrow> if k = [] then None else Some k) of
        Some k \<Rightarrow> (Buffer_from_hex k, env, g)
      | None \<Rightarrow>
         (case key_file env of
            Some contents \<Rightarrow> (let keyHex = trim contents in (Buffer_from_hex keyHex, env, g))
          | None \<Rightarrow>
             (let (newKey, g') = randomBytes 32 g;
                  keyHex = Buffer_toString_hex newKey
              in (newKey, env\<lparr>key_file := Some keyHex\<rparr>, g'))))"

definition NONCE_LENGTH :: nat where "NONCE_LENGTH = 12"
definition TAG_LENGTH :: nat where "TAG_LENGTH = 16"
definition DEK_LENGTH :: nat where "DEK_LENGTH = 32"

subsection \<open>Validators\<close>

text \<open>\<open>/^[0-9a-fA-F]*$/.test(hex)\<close>: every character is in the class; no length condition.\<close>

definition in_hex_class :: "char \<Rightarrow> bool" where
  "in_hex_class c = (let n = (of_char c :: nat) in
     (48 \<le> n \<and> n \<le> 57) \<or> (97 \<le> n \<and> n \<le> 102) \<or> (65 \<le> n \<and> n \<le> 70))"

definition isValidHex :: "string \<Rightarrow> bool" where
  "isValidHex hex = list_all in_hex_class hex"

definition validateNonce :: "string \<Rightarrow> string \<Rightarrow> error + unit" where
  "validateNonce nonce fieldName =
     (if \<not> isValidHex nonce then Inl (ValidationError (fieldName @ '' must be valid hex''))
      else let bytes = Buffer_from_hex nonce in
        if length bytes \<noteq> NONCE_LENGTH
        then Inl (ValidationError (fieldName @ '' must be '' @ decimal NONCE_LENGTH @ '' bytes''))
        else Inr ())"

definition validateTag :: "string \<Rightarrow> string \<Rightarrow> error + unit" where
  "validateTag tag fieldName =
     (if \<not> isValidHex tag then Inl (ValidationError (fieldName @ '' must be valid hex''))
      else let bytes = Buffer_from_hex tag in
        if length bytes \<noteq> TAG_LENGTH
        then Inl (ValidationError (fieldName @ '' must be '' @ decimal TAG_LENGTH @ '' bytes''))
        else Inr ())"

definition validateCipherText :: "string \<Rightarrow> string \<Rightarrow> error + unit" where
  "validateCipherText ct fieldName =
     (if \<not> isValidHex ct then Inl (ValidationError (fieldName @ '' must be valid hex''))
      else if length ct = 0 then Inl (ValidationError (fieldName @ '' cannot be empty''))
      else Inr ())"

subsection \<open>Authenticated cipher\<close>

text \<open>
  \<open>encrypt\<close> returns the object \<open>{nonce, ciphertext, tag}\<close>, which both callers take
  apart at once: a triple of hex strings in that order, with the entropy source.
\<close>

definition encrypt ::
  "'j node \<Rightarrow> buffer \<Rightarrow> buffer \<Rightarrow> rng \<Rightarrow> error + ((string \<times> string \<times> string) \<times> rng)" where
  "encrypt N data key g =
     (let (nonce_bytes, g') = randomBytes NONCE_LENGTH g in
      case aes_gcm_encrypt N key nonce_bytes data of
        Inl msg \<Rightarrow> Inl (Error msg)
      | Inr (ciphertext_bytes, tag_bytes) \<Rightarrow>
          Inr ((Buffer_toString_hex nonce_bytes,
                Buffer_toString_hex ciphertext_bytes,
                Buffer_toString_hex tag_bytes), g'))"

text \<open>The \<open>catch\<close> of \<open>decrypt\<close> turns every exception into the one \<open>DecryptionError\<close>.\<close>

definition decrypt :: "'j node \<Rightarrow> string \<Rightarrow> buffer \<Rightarrow> string \<Rightarrow> string \<Rightarrow> error + buffer" where
  "decrypt N ciphertext key nonce tag =
     (case aes_gcm_decrypt N key (Buffer_from_hex nonce) (Buffer_from_hex tag)
             (Buffer_from_hex ciphertext) of
        Some plaintext \<Rightarrow> Inr plaintext
      | None \<Rightarrow> Inl (DecryptionError ''Decryption failed: ciphertext or tag may be tampered''))"

subsection \<open>Envelope codec\<close>

text \<open>
  \<open>encryptTransaction\<close>; \<open>now\<close> is \<open>new Date().toISOString()\<close>. The random draws are in
  the order of the source: the DEK, the payload nonce, the wrap nonce, the id.
\<close>

definition encryptTransaction ::
  "'j node \<Rightarrow> buffer \<Rightarrow> 'j EncryptRequest \<Rightarrow> string \<Rightarrow> rng \<Rightarrow> error + (TxSecureRecord \<times> rng)" where
  "encryptTransaction N MASTER_KEY request now g =
     (let (dek, g1) = randomBytes DEK_LENGTH g in
      case JSON_stringify N (req_payload request) of
        None \<Rightarrow> Inl (Error ''payload is not serializable'')
      | Some payloadJson \<Rightarrow>
          (let payloadBuffer = utf8_encode N payloadJson in
           case encrypt N payloadBuffer dek g1 of
             Inl e \<Rightarrow> Inl e
           | Inr ((payload_nonce', payload_ct', payload_tag'), g2) \<Rightarrow>
               (case encrypt N dek MASTER_KEY g2 of
                  Inl e \<Rightarrow> Inl e
                | Inr ((dek_wrap_nonce', dek_wrapped', dek_wrap_tag'), g3) \<Rightarrow>
                    (let (id_bytes, g4) = randomBytes 16 g3 in
                     Inr (\<lparr>id_hex = Buffer_toString_hex id_bytes,
                           partyId = req_partyId request,
                           createdAt = now,
                           payload_nonce = payload_nonce',
                           payload_ct = payload_ct',
                           payload_tag = payload_tag',
                           dek_wrap_nonce = dek_wrap_nonce',
                           dek_wrapped = dek_wrapped',
                           dek_wrap_tag = dek_wrap_tag',
                           alg = ''AES-256-GCM'',
                           mk_version = 1\<rparr>, g4)))))"

text \<open>
  The \<open>catch\<close> of \<open>decryptTransaction\<close>: a \<open>DecryptionError\<close> or \<open>ValidationError\<close> is
  thrown again, anything else becomes a \<open>DecryptionError\<close> with the message prefixed.
\<close>

fun rethrow :: "error + 'a \<Rightarrow> error + 'a" where
  "rethrow (Inl (DecryptionError m)) = Inl (DecryptionError m)"
| "rethrow (Inl (ValidationError m)) = Inl (ValidationError m)"
| "rethrow (Inl (Error m)) = Inl (DecryptionError (''Decryption failed: '' @ m))"
| "rethrow (Inr x) = Inr x"

text \<open>The \<open>try\<close> block of \<open>decryptTransaction\<close> with its \<open>catch\<close>.\<close>

definition decryptTransaction_try ::
  "'j node \<Rightarrow> buffer \<Rightarrow> TxSecureRecord \<Rightarrow> error + 'j DecryptedTx" where
  "decryptTransaction_try N MASTER_KEY record =
     rethrow
      (case decrypt N (dek_wrapped record) MASTER_KEY (dek_wrap_nonce record)
              (dek_wrap_tag record) of
         Inl e \<Rightarrow> Inl e
       | Inr dek \<Rightarrow>
          (case decrypt N (payload_ct record) dek (payload_nonce record)
                  (payload_tag record) of
             Inl e \<Rightarrow> Inl e
           | Inr payloadBuffer \<Rightarrow>
              (let payloadJson = utf8_decode N payloadBuffer in
               case JSON_parse N payloadJson of
                 Inl msg \<Rightarrow> Inl (Error msg)
               | Inr payload \<Rightarrow>
                   Inr \<lparr>tx_partyId = partyId record,
                        tx_payload = payload,
                        tx_createdAt = createdAt record\<rparr>)))"

definition decryptTransaction ::
  "'j node \<Rightarrow> buffer \<Rightarrow> TxSecureRecord \<Rightarrow> error + 'j DecryptedTx" where
  "decryptTransaction N MASTER_KEY record =
     and_then (validateNonce (payload_nonce record) ''payload_nonce'')
    (and_then (validateTag (payload_tag record) ''payload_tag'')
    (and_then (validateCipherText (payload_ct record) ''payload_ct'')
    (and_then (validateNonce (dek_wrap_nonce record) ''dek_wrap_nonce'')
    (and_then (validateTag (dek_wrap_tag record) ''dek_wrap_tag'')
    (and_then (validateCipherText (dek_wrapped record) ''dek_wrapped'')
    (decryptTransaction_try N MASTER_KEY record))))))"

definition validateRecord :: "TxSecureRecord \<Rightarrow> error + unit" where
  "validateRecord record =
     and_then (validateNonce (payload_nonce record) ''payload_nonce'')
    (and_then (validateTag (payload_tag record) ''payload_tag'')
    (and_then (validateCipherText (payload_ct record) ''payload_ct'')
    (and_then (validateNonce (dek_wrap_nonce record) ''dek_wrap_nonce'')
    (and_then (validateTag (dek_wrap_tag record) ''dek_wrap_tag'')
    (and_then (validateCipherText (dek_wrapped record) ''dek_wrapped'')
    (if alg record \<noteq> ''AES-256-GCM'' then Inl (ValidationError ''Invalid algorithm'')
     else if mk_version record \<noteq> 1 then Inl (ValidationError ''Invalid master key version'')
     else Inr ()))))))"

section \<open>Notions the properties speak about\<close>

subsection \<open>Tampering with the value a hex field encodes\<close>

text \<open>
  \<open>flip_bit_at i bs\<close> flips bit \<open>i mod 8\<close> of byte \<open>i div 8\<close> of \<open>bs\<close>, for
  \<open>i < 8 * length bs\<close>; \<open>tamper i s\<close> does it to the bytes that the hex string \<open>s\<close>
  encodes and writes them as hex again, as the tests of the repository do
  (\<open>originalTag[0] ^= 0xff; originalTag.toString("hex")\<close>).
\<close>

definition flip_bit_at :: "nat \<Rightarrow> buffer \<Rightarrow> buffer" where
  "flip_bit_at i bs = bs[i div 8 := flip_bit (i mod 8) (bs ! (i div 8))]"

definition tamper :: "nat \<Rightarrow> string \<Rightarrow> string" where
  "tamper i s = Buffer_toString_hex (flip_bit_at i (Buffer_from_hex s))"

subsection \<open>What is assumed of AES-256-GCM and of JSON\<close>

text \<open>
  Functional correctness of the cipher: with a 32-byte key and a 12-byte nonce, encryption
  succeeds, the ciphertext is as long as the plaintext, the tag has 16 bytes, and
  decryption with the same key, nonce and tag gives the plaintext back.
\<close>

definition gcm_correct :: "'j node \<Rightarrow> bool" where
  "gcm_correct N \<longleftrightarrow>
     (\<forall>key n data. length key = 32 \<and> length n = 12 \<longrightarrow>
        (\<exists>c t. aes_gcm_encrypt N key n data = Inr (c, t) \<and> length c = length data \<and>
               length t = 16 \<and> aes_gcm_decrypt N key n t c = Some data))"

text \<open>
  Authentication, for single-bit changes: where a ciphertext is accepted under a key, a
  nonce and a tag, the ciphertext with one bit flipped is rejected, and so is the tag
  with one bit flipped.
\<close>

definition gcm_detects :: "'j node \<Rightarrow> bool" where
  "gcm_detects N \<longleftrightarrow>
     (\<forall>key n t c i. aes_gcm_decrypt N key n t c \<noteq> None \<longrightarrow>
        (i < 8 * length c \<longrightarrow> aes_gcm_decrypt N key n t (flip_bit_at i c) = None) \<and>
        (i < 8 * length t \<longrightarrow> aes_gcm_decrypt N key n (flip_bit_at i t) c = None))"


text \<open>
  A payload is JSON-serializable when \<open>JSON.stringify\<close> gives a text for it, the UTF-8
  bytes of the text are not empty, and decoding and parsing them gives the payload back.
\<close>

definition serializable :: "'j node \<Rightarrow> 'j \<Rightarrow> bool" where
  "serializable N P \<longleftrightarrow>
     (case JSON_stringify N P of
        None \<Rightarrow> False
      | Some s \<Rightarrow> utf8_encode N s \<noteq> [] \<and>
                  JSON_parse N (utf8_decode N (utf8_encode N s)) = Inr P)"

subsection \<open>Well-formed fields, and the checks of validateRecord one by one\<close>

text \<open>
  The six cryptographic fields are well-formed: valid hex, nonces of 12 bytes, tags of 16
  bytes, ciphertexts not empty.
\<close>

definition six_fields_well_formed :: "TxSecureRecord \<Rightarrow> bool" where
  "six_fields_well_formed r \<longleftrightarrow>
     isValidHex (payload_nonce r) \<and> length (Buffer_from_hex (payload_nonce r)) = 12 \<and>
     isValidHex (dek_wrap_nonce r) \<and> length (Buffer_from_hex (dek_wrap_nonce r)) = 12 \<and>
     isValidHex (payload_tag r) \<and> length (Buffer_from_hex (payload_tag r)) = 16 \<and>
     isValidHex (dek_wrap_tag r) \<and> length (Buffer_from_hex (dek_wrap_tag r)) = 16 \<and>
     isValidHex (payload_ct r) \<and> payload_ct r \<noteq> [] \<and>
     isValidHex (dek_wrapped r) \<and> dek_wrapped r \<noteq> []"

text \<open>
  A record opens to the bytes \<open>bs\<close> under a master key: its six fields are
  well-formed, the wrapped DEK decrypts under the master key, and the payload ciphertext
  decrypts under that DEK to \<open>bs\<close>.
\<close>

definition opens_to :: "'j node \<Rightarrow> buffer \<Rightarrow> TxSecureRecord \<Rightarrow> buffer \<Rightarrow> bool" where
  "opens_to N MK r bs \<longleftrightarrow>
     six_fields_well_formed r \<and>
     (case aes_gcm_decrypt N MK (Buffer_from_hex (dek_wrap_nonce r))
             (Buffer_from_hex (dek_wrap_tag r)) (Buffer_from_hex (dek_wrapped r)) of
        None \<Rightarrow> False
      | Some dek \<Rightarrow>
          aes_gcm_decrypt N dek (Buffer_from_hex (payload_nonce r))
            (Buffer_from_hex (payload_tag r)) (Buffer_from_hex (payload_ct r)) = Some bs)"





text \<open>
  The eight checks of \<open>validateRecord\<close>, each taken alone, listed in the order in which
  the source makes them.
\<close>

definition checks_in_order :: "TxSecureRecord \<Rightarrow> (error + unit) list" where
  "checks_in_order r =
     [validateNonce (payload_nonce r) ''payload_nonce'',
      validateTag (payload_tag r) ''payload_tag'',
      validateCipherText (payload_ct r) ''payload_ct'',
      validateNonce (dek_wrap_nonce r) ''dek_wrap_nonce'',
      validateTag (dek_wrap_tag r) ''dek_wrap_tag'',
      validateCipherText (dek_wrapped r) ''dek_wrapped'',
      (if alg r \<noteq> ''AES-256-GCM'' then Inl (ValidationError ''Invalid algorithm'') else Inr ()),
      (if mk_version r \<noteq> 1 then Inl (ValidationError ''Invalid master key version'')
       else Inr ())]"

text \<open>
  A list of checks made one after the other, stopping at the first that throws.
\<close>

fun first_failure :: "(error + unit) list \<Rightarrow> error + unit" where
  "first_failure [] = Inr ()"
| "first_failure (Inl e # cs) = Inl e"
| "first_failure (Inr u # cs) = first_failure cs"

text \<open>
  The order that the specification gives instead: both nonces, both tags, both
  ciphertexts, the algorithm, the version.
\<close>

definition checks_in_claimed_order :: "TxSecureRecord \<Rightarrow> (error + unit) list" where
  "checks_in_claimed_order r =
     [validateNonce (payload_nonce r) ''payload_nonce'',
      validateNonce (dek_wrap_nonce r) ''dek_wrap_nonce'',
      validateTag (payload_tag r) ''payload_tag'',
      validateTag (dek_wrap_tag r) ''dek_wrap_tag'',
      validateCipherText (payload_ct r) ''payload_ct'',
      validateCipherText (dek_wrapped r) ''dek_wrapped'',
      (if alg r \<noteq> ''AES-256-GCM'' then Inl (ValidationError ''Invalid algorithm'') else Inr ()),
      (if mk_version r \<noteq> 1 then Inl (ValidationError ''Invalid master key version'')
       else Inr ())]"

section \<open>A small platform to run the model on\<close>

text \<open>
  A stand-in for the platform, on which the model runs on concrete inputs. The cipher
  is not AES: it masks every byte with a checksum of key and nonce, and its tag is a
  checksum of key and ciphertext followed by the nonce. JSON values are the natural
  numbers, written in decimal; the UTF-8 codec is the one of ASCII.
\<close>

definition xsum :: "buffer \<Rightarrow> byte" where
  "xsum bs = foldr (XOR) bs 0"

definition demo_tag :: "buffer \<Rightarrow> buffer \<Rightarrow> buffer \<Rightarrow> buffer" where
  "demo_tag key n ct = (xsum key XOR xsum ct) # n @ [0, 0, 0]"

definition demo_gcm_encrypt :: "buffer \<Rightarrow> buffer \<Rightarrow> buffer \<Rightarrow> string + (buffer \<times> buffer)" where
  "demo_gcm_encrypt key n data =
     (if length key \<noteq> 32 then Inl ''Invalid key length''
      else if length n \<noteq> 12 then Inl ''Invalid initialization vector''
      else let ct = map (\<lambda>b. b XOR xsum key XOR xsum n) data
           in Inr (ct, demo_tag key n ct))"

definition demo_gcm_decrypt :: "buffer \<Rightarrow> buffer \<Rightarrow> buffer \<Rightarrow> buffer \<Rightarrow> buffer option" where
  "demo_gcm_decrypt key n t ct =
     (if length key = 32 \<and> length n = 12 \<and> t = demo_tag key n ct
      then Some (map (\<lambda>b. b XOR xsum key XOR xsum n) ct) else None)"

definition is_digit :: "char \<Rightarrow> bool" where
  "is_digit c = (48 \<le> (of_char c :: nat) \<and> (of_char c :: nat) \<le> 57)"

definition demo_JSON_parse :: "string \<Rightarrow> string + nat" where
  "demo_JSON_parse s =
     (if s \<noteq> [] \<and> list_all is_digit s
      then Inr (foldl (\<lambda>a c. 10 * a + (of_char c - 48)) 0 s)
      else Inl ''Unexpected token in JSON'')"

definition demo_node :: "nat node" where
  "demo_node =
     \<lparr>aes_gcm_encrypt = demo_gcm_encrypt,
      aes_gcm_decrypt = demo_gcm_decrypt,
      JSON_stringify = (\<lambda>n. Some (decimal n)),
      JSON_parse = demo_JSON_parse,
      utf8_encode = map (\<lambda>c. word_of_nat (of_char c)),
      utf8_decode = map (\<lambda>b. char_of (unat b))\<rparr>"

definition demo_key :: buffer where
  "demo_key = map word_of_nat [1..<33]"

definition demo_rng :: rng where
  "demo_rng i = word_of_nat (5 * i + 11)"

definition demo_request :: "nat EncryptRequest" where
  "demo_request = \<lparr>req_partyId = ''party-123'', req_payload = 1000\<rparr>"

definition demo_now :: string where
  "demo_now = ''2026-02-12T00:00:00.000Z''"

text \<open>The record that \<open>encryptTransaction\<close> makes of them (lemma \<open>demo_encrypt\<close> below).\<close>

definition demo_record :: TxSecureRecord where
  "demo_record =
     \<lparr>id_hex = ''23282d32373c41464b50555a5f64696e'',
      partyId = ''party-123'',
      createdAt = ''2026-02-12T00:00:00.000Z'',
      payload_nonce = ''abb0b5babfc4c9ced3d8dde2'',
      payload_ct = ''0d0c0c0c'',
      payload_tag = ''61abb0b5babfc4c9ced3d8dde2000000'',
      dek_wrap_nonce = ''e7ecf1f6fb00050a0f14191e'',
      dek_wrapped = ''cfd4d1dedbe0edeaf7fcf986838895929fa4a1aeabb0bdba474c495653586562'',
      dek_wrap_tag = ''40e7ecf1f6fb00050a0f14191e000000'',
      alg = ''AES-256-GCM'',
      mk_version = 1\<rparr>"

section \<open>The hex codec\<close>

lemma unhex_iff: "unhex c \<noteq> None \<longleftrightarrow> in_hex_class c"
  by (auto simp: unhex_def in_hex_class_def Let_def)

lemma unhex_hex_digit_all: "list_all (\<lambda>m. unhex (hex_digit m) = Some m) [0..<16]"
  by code_simp

lemma unhex_hex_digit: "n < 16 \<Longrightarrow> unhex (hex_digit n) = Some n"
  using unhex_hex_digit_all by (simp add: list_all_iff)

lemma in_hex_class_hex_digit: "in_hex_class (hex_digit n)"
proof -
  have "unhex (hex_digit (n mod 16)) = Some (n mod 16)" by (rule unhex_hex_digit) simp
  moreover have "hex_digit (n mod 16) = hex_digit n" by (simp add: hex_digit_def)
  ultimately show ?thesis using unhex_iff [of "hex_digit n"] by simp
qed

lemma byte_nibbles: "(word_of_nat (16 * (unat b div 16) + unat b mod 16) :: byte) = b"
  by simp

lemma from_hex_to_hex [simp]: "Buffer_from_hex (Buffer_toString_hex bs) = bs"
proof (induction bs)
  case Nil
  show ?case by (simp add: Buffer_toString_hex_def)
next
  case (Cons b bs)
  have d: "unat b div 16 < 16" using unsigned_less [of b, where 'a = nat] by simp
  have "Buffer_toString_hex (b # bs) =
          hex_digit (unat b div 16) # hex_digit (unat b mod 16) # Buffer_toString_hex bs"
    by (simp add: Buffer_toString_hex_def)
  with Cons d show ?case by (simp add: unhex_hex_digit)
qed

lemma to_hex_valid [simp]: "isValidHex (Buffer_toString_hex bs)"
  by (induction bs) (simp_all add: Buffer_toString_hex_def isValidHex_def in_hex_class_hex_digit)

lemma length_to_hex [simp]: "length (Buffer_toString_hex bs) = 2 * length bs"
  by (induction bs) (simp_all add: Buffer_toString_hex_def)

lemma to_hex_empty [simp]: "Buffer_toString_hex bs = [] \<longleftrightarrow> bs = []"
  by (cases bs) (simp_all add: Buffer_toString_hex_def)

lemma length_from_hex: "isValidHex s \<Longrightarrow> length (Buffer_from_hex s) = length s div 2"
proof (induction s rule: Buffer_from_hex.induct)
  case (1 a b rest)
  from "1.prems" have a: "in_hex_class a" and b: "in_hex_class b" and r: "isValidHex rest"
    by (simp_all add: isValidHex_def)
  from a obtain x where x: "unhex a = Some x" using unhex_iff [of a] by auto
  from b obtain y where y: "unhex b = Some y" using unhex_iff [of b] by auto
  from "1.IH" [OF x y r] x y show ?case by simp
qed simp_all

lemma from_hex_snoc:
  "isValidHex s \<Longrightarrow> even (length s) \<Longrightarrow> Buffer_from_hex (s @ [c]) = Buffer_from_hex s"
proof (induction s rule: Buffer_from_hex.induct)
  case (1 a b rest)
  from "1.prems" have a: "in_hex_class a" and b: "in_hex_class b" and r: "isValidHex rest"
    and e: "even (length rest)"
    by (simp_all add: isValidHex_def)
  from a obtain x where x: "unhex a = Some x" using unhex_iff [of a] by auto
  from b obtain y where y: "unhex b = Some y" using unhex_iff [of b] by auto
  from "1.IH" [OF x y r e] x y show ?case by simp
qed simp_all

lemma from_hex_prefix: "Buffer_from_hex s = Buffer_from_hex (takeWhile in_hex_class s)"
proof (induction s rule: Buffer_from_hex.induct)
  case (1 a b rest)
  show ?case
  proof (cases "unhex a")
    case None
    then have "\<not> in_hex_class a" using unhex_iff [of a] by simp
    with None show ?thesis by simp
  next
    case (Some x)
    then have a: "in_hex_class a" using unhex_iff [of a] by simp
    show ?thesis
    proof (cases "unhex b")
      case None
      then have "\<not> in_hex_class b" using unhex_iff [of b] by simp
      with None Some a show ?thesis by simp
    next
      case (Some y)
      then have b: "in_hex_class b" using unhex_iff [of b] by simp
      from "1.IH" [OF \<open>unhex a = Some x\<close> Some] a b \<open>unhex a = Some x\<close> Some
      show ?thesis by simp
    qed
  qed
qed simp_all

lemma decimal_12: "decimal 12 = ''12''"
  by (simp add: decimal.simps [of 12] decimal.simps [of "Suc 0"] hex_digit_def)

lemma decimal_16: "decimal 16 = ''16''"
  by (simp add: decimal.simps [of 16] decimal.simps [of "Suc 0"] hex_digit_def)

section \<open>The validators\<close>

lemma and_then_Inr [simp]: "and_then (Inr u) k = k"
  by (simp add: and_then_def)

lemma and_then_Inl [simp]: "and_then (Inl e) k = Inl e"
  by (simp add: and_then_def)

lemma first_failure_Cons: "first_failure (c # cs) = and_then c (first_failure cs)"
  by (cases c) simp_all

lemma isValidHex_iff: "isValidHex s \<longleftrightarrow> (\<forall>c \<in> set s. in_hex_class c)"
  by (simp add: isValidHex_def list_all_iff)

lemma validateNonce_cases:
  "validateNonce s f =
     (if \<not> isValidHex s then Inl (ValidationError (f @ '' must be valid hex''))
      else if length (Buffer_from_hex s) \<noteq> 12 then Inl (ValidationError (f @ '' must be 12 bytes''))
      else Inr ())"
  by (simp add: validateNonce_def NONCE_LENGTH_def decimal_12 Let_def)

lemma validateTag_cases:
  "validateTag s f =
     (if \<not> isValidHex s then Inl (ValidationError (f @ '' must be valid hex''))
      else if length (Buffer_from_hex s) \<noteq> 16 then Inl (ValidationError (f @ '' must be 16 bytes''))
      else Inr ())"
  by (simp add: validateTag_def TAG_LENGTH_def decimal_16 Let_def)

lemma validateCipherText_cases:
  "validateCipherText s f =
     (if \<not> isValidHex s then Inl (ValidationError (f @ '' must be valid hex''))
      else if s = [] then Inl (ValidationError (f @ '' cannot be empty''))
      else Inr ())"
  by (simp add: validateCipherText_def)

lemma validateNonce_ok: "validateNonce s f = Inr () \<longleftrightarrow> isValidHex s \<and> length (Buffer_from_hex s) = 12"
  by (simp add: validateNonce_cases)

lemma validateTag_ok: "validateTag s f = Inr () \<longleftrightarrow> isValidHex s \<and> length (Buffer_from_hex s) = 16"
  by (simp add: validateTag_cases)

lemma validateCipherText_ok: "validateCipherText s f = Inr () \<longleftrightarrow> isValidHex s \<and> s \<noteq> []"
  by (simp add: validateCipherText_cases)

lemma six_fields_well_formed_iff:
  "six_fields_well_formed r \<longleftrightarrow>
     validateNonce (payload_nonce r) ''payload_nonce'' = Inr () \<and>
     validateTag (payload_tag r) ''payload_tag'' = Inr () \<and>
     validateCipherText (payload_ct r) ''payload_ct'' = Inr () \<and>
     validateNonce (dek_wrap_nonce r) ''dek_wrap_nonce'' = Inr () \<and>
     validateTag (dek_wrap_tag r) ''dek_wrap_tag'' = Inr () \<and>
     validateCipherText (dek_wrapped r) ''dek_wrapped'' = Inr ()"
  unfolding six_fields_well_formed_def validateNonce_ok validateTag_ok validateCipherText_ok
  by blast

lemma decryptTransaction_well_formed:
  "six_fields_well_formed r \<Longrightarrow> decryptTransaction N MK r = decryptTransaction_try N MK r"
  by (simp add: six_fields_well_formed_iff decryptTransaction_def)

lemma validateRecord_well_formed:
  "six_fields_well_formed r \<Longrightarrow>
   validateRecord r =
     (if alg r \<noteq> ''AES-256-GCM'' then Inl (ValidationError ''Invalid algorithm'')
      else if mk_version r \<noteq> 1 then Inl (ValidationError ''Invalid master key version'')
      else Inr ())"
  by (simp add: six_fields_well_formed_iff validateRecord_def)

lemma demo_record_well_formed: "six_fields_well_formed demo_record"
  by (simp add: six_fields_well_formed_def demo_record_def isValidHex_def in_hex_class_def unhex_def)

subsection \<open>Hex validity and byte length are reported separately\<close>

text \<open>
  C9. A nonce or tag field that contains a character outside \<open>[0-9a-fA-F]\<close> fails with
  the \<open>ValidationError\<close> "\<open>field\<close> must be valid hex", whatever its length. A field of
  valid hex that decodes to a number of bytes other than 12 (nonce) or 16 (tag) fails
  with the \<open>ValidationError\<close> "\<open>field\<close> must be 12 bytes" ("16 bytes"). The two
  messages name the field and differ.
\<close>

theorem hex_and_length_reported_separately:
  "(c \<in> set s \<and> \<not> in_hex_class c \<longrightarrow>
      validateNonce s f = Inl (ValidationError (f @ '' must be valid hex'')) \<and>
      validateTag s f = Inl (ValidationError (f @ '' must be valid hex''))) \<and>
   (isValidHex s \<and> length (Buffer_from_hex s) \<noteq> 12 \<longrightarrow>
      validateNonce s f = Inl (ValidationError (f @ '' must be 12 bytes''))) \<and>
   (isValidHex s \<and> length (Buffer_from_hex s) \<noteq> 16 \<longrightarrow>
      validateTag s f = Inl (ValidationError (f @ '' must be 16 bytes''))) \<and>
   f @ '' must be valid hex'' \<noteq> f @ '' must be 12 bytes'' \<and>
   f @ '' must be valid hex'' \<noteq> f @ '' must be 16 bytes''"
proof -
  have "c \<in> set s \<and> \<not> in_hex_class c \<longrightarrow> \<not> isValidHex s"
    by (auto simp: isValidHex_iff)
  then show ?thesis
    by (simp add: validateNonce_cases validateTag_cases)
qed

theorem hex_and_length_reported_separately_witness:
  "validateNonce ''0g'' ''payload_nonce'' = Inl (ValidationError ''payload_nonce must be valid hex'') \<and>
   validateTag ''0g'' ''payload_nonce'' = Inl (ValidationError ''payload_nonce must be valid hex'') \<and>
   validateNonce ''00112233445566778899'' ''dek_wrap_nonce''
     = Inl (ValidationError ''dek_wrap_nonce must be 12 bytes'') \<and>
   validateTag ''00112233445566778899'' ''dek_wrap_tag''
     = Inl (ValidationError ''dek_wrap_tag must be 16 bytes'')"
proof -
  have a: "CHR ''g'' \<in> set ''0g'' \<and> \<not> in_hex_class (CHR ''g'')"
    by (simp add: in_hex_class_def)
  have b: "isValidHex ''00112233445566778899''"
    by (simp add: isValidHex_def in_hex_class_def)
  have c: "length (Buffer_from_hex ''00112233445566778899'') = 10"
    by (simp add: unhex_def)
  from a b c
    hex_and_length_reported_separately [of "CHR ''g''" "''0g''" "''payload_nonce''"]
    hex_and_length_reported_separately [of "CHR ''g''" "''00112233445566778899''" "''dek_wrap_nonce''"]
    hex_and_length_reported_separately [of "CHR ''g''" "''00112233445566778899''" "''dek_wrap_tag''"]
  show ?thesis by simp
qed

subsection \<open>Algorithm and version gating\<close>

text \<open>
  C8. For a record whose six cryptographic fields are well-formed, \<open>validateRecord\<close>
  raises a \<open>ValidationError\<close> if \<open>alg\<close> is not "AES-256-GCM" or \<open>mk_version\<close> is not 1,
  and succeeds when both have the supported values.
\<close>

theorem validateRecord_gating:
  assumes "six_fields_well_formed r"
  shows "(alg r \<noteq> ''AES-256-GCM'' \<longrightarrow>
            validateRecord r = Inl (ValidationError ''Invalid algorithm'')) \<and>
         (alg r = ''AES-256-GCM'' \<and> mk_version r \<noteq> 1 \<longrightarrow>
            validateRecord r = Inl (ValidationError ''Invalid master key version'')) \<and>
         (alg r = ''AES-256-GCM'' \<and> mk_version r = 1 \<longrightarrow> validateRecord r = Inr ())"
  using assms by (simp add: validateRecord_well_formed)

theorem validateRecord_gating_witness:
  "six_fields_well_formed (demo_record\<lparr>alg := ''AES-128-CBC''\<rparr>) \<and>
   validateRecord (demo_record\<lparr>alg := ''AES-128-CBC''\<rparr>) = Inl (ValidationError ''Invalid algorithm'') \<and>
   six_fields_well_formed (demo_record\<lparr>mk_version := 2\<rparr>) \<and>
   validateRecord (demo_record\<lparr>mk_version := 2\<rparr>) = Inl (ValidationError ''Invalid master key version'') \<and>
   six_fields_well_formed demo_record \<and> validateRecord demo_record = Inr ()"
proof -
  have a: "six_fields_well_formed (demo_record\<lparr>alg := ''AES-128-CBC''\<rparr>)"
    and b: "six_fields_well_formed (demo_record\<lparr>mk_version := 2\<rparr>)"
    using demo_record_well_formed by (simp_all add: six_fields_well_formed_def)
  have c: "alg demo_record = ''AES-256-GCM''" "mk_version demo_record = 1"
    by (simp_all add: demo_record_def)
  from validateRecord_gating [OF a] validateRecord_gating [OF b]
    validateRecord_gating [OF demo_record_well_formed] a b c demo_record_well_formed
  show ?thesis by simp
qed

subsection \<open>The order of the checks\<close>

text \<open>
  C5, as claimed, fails. The specification orders the checks by kind (nonces, tags,
  ciphertexts); the source orders them by envelope part (payload nonce, tag and
  ciphertext, then those of the wrapped DEK). In a record whose \<open>payload_tag\<close> and
  \<open>dek_wrap_nonce\<close> are both invalid, the claimed order reports \<open>dek_wrap_nonce\<close>;
  \<open>validateRecord\<close> reports \<open>payload_tag\<close>.
\<close>

theorem validateRecord_order_counterexample:
  "validateNonce (dek_wrap_nonce (demo_record\<lparr>payload_tag := ''zz'', dek_wrap_nonce := ''00''\<rparr>))
      ''dek_wrap_nonce'' = Inl (ValidationError ''dek_wrap_nonce must be 12 bytes'') \<and>
   validateTag (payload_tag (demo_record\<lparr>payload_tag := ''zz'', dek_wrap_nonce := ''00''\<rparr>))
      ''payload_tag'' = Inl (ValidationError ''payload_tag must be valid hex'') \<and>
   first_failure (checks_in_claimed_order (demo_record\<lparr>payload_tag := ''zz'', dek_wrap_nonce := ''00''\<rparr>))
      = Inl (ValidationError ''dek_wrap_nonce must be 12 bytes'') \<and>
   validateRecord (demo_record\<lparr>payload_tag := ''zz'', dek_wrap_nonce := ''00''\<rparr>)
      = Inl (ValidationError ''payload_tag must be valid hex'')"
proof -
  have pn: "validateNonce (payload_nonce demo_record) ''payload_nonce'' = Inr ()"
    using demo_record_well_formed by (simp add: six_fields_well_formed_iff)
  have dn: "validateNonce ''00'' ''dek_wrap_nonce''
              = Inl (ValidationError ''dek_wrap_nonce must be 12 bytes'')"
    by (simp add: validateNonce_cases isValidHex_def in_hex_class_def unhex_def)
  have pt: "validateTag ''zz'' ''payload_tag'' = Inl (ValidationError ''payload_tag must be valid hex'')"
    by (simp add: validateTag_cases isValidHex_def in_hex_class_def)
  show ?thesis
    by (simp add: pn dn pt validateRecord_def checks_in_claimed_order_def)
qed

text \<open>
  C5, amended. \<open>validateRecord\<close> makes its checks in the order \<open>payload_nonce\<close>,
  \<open>payload_tag\<close>, \<open>payload_ct\<close>, \<open>dek_wrap_nonce\<close>, \<open>dek_wrap_tag\<close>, \<open>dek_wrapped\<close>,
  \<open>alg\<close>, \<open>mk_version\<close>, and raises the error of the first check that fails.
\<close>

theorem validateRecord_first_failure:
  "validateRecord r = first_failure (checks_in_order r)"
  by (simp add: validateRecord_def checks_in_order_def first_failure_Cons)

section \<open>The stand-in platform meets the assumptions\<close>

lemma length_flip_bit_at [simp]: "length (flip_bit_at i bs) = length bs"
  by (simp add: flip_bit_at_def)

lemma flip_bit_byte_neq: "n < 8 \<Longrightarrow> flip_bit n (a :: byte) \<noteq> a"
proof
  assume n: "n < 8" and eq: "flip_bit n a = a"
  have "bit (flip_bit n a) n \<longleftrightarrow> \<not> bit a n"
    using n by (simp add: bit_flip_bit_iff)
  with eq show False by simp
qed

lemma flip_bit_at_neq: "i < 8 * length bs \<Longrightarrow> flip_bit_at i bs \<noteq> bs"
proof
  assume i: "i < 8 * length bs" and eq: "flip_bit_at i bs = bs"
  from i have j: "i div 8 < length bs" by (simp add: less_mult_imp_div_less mult.commute)
  have "flip_bit_at i bs ! (i div 8) = flip_bit (i mod 8) (bs ! (i div 8))"
    using j by (simp add: flip_bit_at_def)
  with eq have "flip_bit (i mod 8) (bs ! (i div 8)) = bs ! (i div 8)" by simp
  then show False using flip_bit_byte_neq [of "i mod 8" "bs ! (i div 8)"] by simp
qed

lemma xsum_Nil [simp]: "xsum [] = 0"
  by (simp add: xsum_def)

lemma xsum_Cons [simp]: "xsum (b # bs) = b XOR xsum bs"
  by (simp add: xsum_def)

lemma xsum_update: "j < length bs \<Longrightarrow> xsum (bs[j := v]) = xsum bs XOR (bs ! j) XOR v"
proof (induction bs arbitrary: j)
  case Nil
  then show ?case by simp
next
  case (Cons b bs)
  show ?case
  proof (cases j)
    case 0
    have "(b XOR xsum bs) XOR b XOR v = (b XOR b) XOR (v XOR xsum bs)"
      by (simp only: ac_simps)
    with 0 show ?thesis by simp
  next
    case (Suc k)
    with Cons.prems have "k < length bs" by simp
    from Cons.IH [OF this] Suc show ?thesis by (simp add: xor.assoc)
  qed
qed

lemma xor_left_inj: "(x :: byte) XOR a = x XOR b \<longleftrightarrow> a = b"
proof
  assume "x XOR a = x XOR b"
  then have "x XOR (x XOR a) = x XOR (x XOR b)" by simp
  then show "a = b" by (simp add: xor.assoc [symmetric])
qed simp

lemma xor_cancel_byte: "(x :: byte) XOR a XOR b = x \<longleftrightarrow> a = b"
proof -
  have "x XOR a XOR b = x \<longleftrightarrow> x XOR (a XOR b) = x XOR (a XOR a)"
    by (simp add: xor.assoc)
  also have "\<dots> \<longleftrightarrow> a XOR b = a XOR a" by (rule xor_left_inj)
  also have "\<dots> \<longleftrightarrow> b = a" by (rule xor_left_inj)
  finally show ?thesis by auto
qed

lemma xsum_flip: "i < 8 * length bs \<Longrightarrow> xsum (flip_bit_at i bs) \<noteq> xsum bs"
proof -
  assume i: "i < 8 * length bs"
  then have j: "i div 8 < length bs" by (simp add: less_mult_imp_div_less mult.commute)
  have "xsum (flip_bit_at i bs) = xsum bs XOR (bs ! (i div 8)) XOR flip_bit (i mod 8) (bs ! (i div 8))"
    using xsum_update [OF j] by (simp add: flip_bit_at_def)
  moreover have "bs ! (i div 8) \<noteq> flip_bit (i mod 8) (bs ! (i div 8))"
    using flip_bit_byte_neq [of "i mod 8" "bs ! (i div 8)"] by simp
  ultimately show ?thesis by (simp add: xor_cancel_byte)
qed

lemma demo_mask_involution: "map (\<lambda>b. b XOR (k :: byte)) (map (\<lambda>b. b XOR k) data) = data"
  by (induction data) (simp_all add: xor.assoc)

lemma demo_gcm_correct: "gcm_correct demo_node"
  unfolding gcm_correct_def
proof (intro allI impI)
  fix key n :: buffer and data :: buffer
  assume h: "length key = 32 \<and> length n = 12"
  let ?k = "xsum key XOR xsum n"
  let ?c = "map (\<lambda>b. b XOR ?k) data"
  have m: "map (\<lambda>b. b XOR xsum key XOR xsum n) ?c = data"
    using demo_mask_involution [of ?k data] by (simp add: xor.assoc)
  have "aes_gcm_encrypt demo_node key n data = Inr (?c, demo_tag key n ?c)"
    using h by (simp add: demo_node_def demo_gcm_encrypt_def Let_def)
  moreover have "length (demo_tag key n ?c) = 16"
    using h by (simp add: demo_tag_def)
  moreover have "aes_gcm_decrypt demo_node key n (demo_tag key n ?c) ?c = Some data"
    using h m by (simp add: demo_node_def demo_gcm_decrypt_def)
  ultimately show "\<exists>c t. aes_gcm_encrypt demo_node key n data = Inr (c, t) \<and>
      length c = length data \<and> length t = 16 \<and> aes_gcm_decrypt demo_node key n t c = Some data"
    by simp
qed

lemma demo_gcm_detects: "gcm_detects demo_node"
  unfolding gcm_detects_def
proof (intro allI impI conjI)
  fix key n t c :: buffer and i :: nat
  assume ok: "aes_gcm_decrypt demo_node key n t c \<noteq> None"
  then have t: "t = demo_tag key n c"
    by (simp add: demo_node_def demo_gcm_decrypt_def split: if_splits)
  {
    assume "i < 8 * length c"
    then have "xsum (flip_bit_at i c) \<noteq> xsum c" by (rule xsum_flip)
    then have "demo_tag key n (flip_bit_at i c) \<noteq> t"
      by (simp add: t demo_tag_def xor_left_inj)
    then show "aes_gcm_decrypt demo_node key n t (flip_bit_at i c) = None"
      by (auto simp: demo_node_def demo_gcm_decrypt_def)
  }
  {
    assume "i < 8 * length t"
    then have "flip_bit_at i t \<noteq> t" by (rule flip_bit_at_neq)
    then show "aes_gcm_decrypt demo_node key n (flip_bit_at i t) c = None"
      by (simp add: t demo_node_def demo_gcm_decrypt_def)
  }
qed


lemma length_demo_key: "length demo_key = 32"
  by (simp add: demo_key_def)

lemma decimal_1000: "decimal 1000 = ''1000''"
  by (simp add: decimal.simps [of 1000] decimal.simps [of 100] decimal.simps [of 10]
      decimal.simps [of "Suc 0"] hex_digit_def)

lemma demo_utf8_roundtrip: "utf8_decode demo_node (utf8_encode demo_node s) = s"
proof -
  have "char_of (unat (word_of_nat (of_char c) :: byte)) = c" for c :: char
  proof -
    have "(of_char c :: nat) < 256" by simp
    then have "unat (word_of_nat (of_char c) :: byte) = of_char c"
      by (simp add: unat_of_nat)
    then show ?thesis by simp
  qed
  then show ?thesis
    by (simp add: demo_node_def comp_def map_idI)
qed

lemma demo_serializable: "serializable demo_node 1000"
proof -
  have "JSON_stringify demo_node 1000 = Some ''1000''"
    by (simp add: demo_node_def decimal_1000)
  moreover have "utf8_encode demo_node ''1000'' \<noteq> []"
    by (simp add: demo_node_def)
  moreover have "JSON_parse demo_node ''1000'' = Inr 1000"
    by (simp add: demo_node_def demo_JSON_parse_def is_digit_def)
  ultimately show ?thesis
    by (simp add: serializable_def demo_utf8_roundtrip)
qed

section \<open>The envelope codec\<close>

lemma length_randomBytes [simp]: "length (fst (randomBytes n g)) = n"
  by (simp add: randomBytes_def)

lemma encrypt_correct:
  assumes "gcm_correct N" and "length key = 32"
  shows "\<exists>c t. encrypt N data key g =
            Inr ((Buffer_toString_hex (fst (randomBytes 12 g)), Buffer_toString_hex c,
                  Buffer_toString_hex t), snd (randomBytes 12 g)) \<and>
          length c = length data \<and> length t = 16 \<and>
          aes_gcm_decrypt N key (fst (randomBytes 12 g)) t c = Some data"
proof -
  let ?n = "fst (randomBytes 12 g)"
  have "length key = 32 \<and> length ?n = 12" using assms(2) by simp
  with assms(1) obtain c t where
    e: "aes_gcm_encrypt N key ?n data = Inr (c, t)" and
    l: "length c = length data" "length t = 16" and
    d: "aes_gcm_decrypt N key ?n t c = Some data"
    unfolding gcm_correct_def by blast
  have "encrypt N data key g =
          Inr ((Buffer_toString_hex ?n, Buffer_toString_hex c, Buffer_toString_hex t),
               snd (randomBytes 12 g))"
    using e by (simp add: encrypt_def NONCE_LENGTH_def split_beta)
  with l d show ?thesis by blast
qed

lemma decryptTransaction_try_bytes:
  "decryptTransaction_try N MK r =
     (case aes_gcm_decrypt N MK (Buffer_from_hex (dek_wrap_nonce r))
             (Buffer_from_hex (dek_wrap_tag r)) (Buffer_from_hex (dek_wrapped r)) of
        None \<Rightarrow> Inl (DecryptionError ''Decryption failed: ciphertext or tag may be tampered'')
      | Some dek \<Rightarrow>
         (case aes_gcm_decrypt N dek (Buffer_from_hex (payload_nonce r))
                 (Buffer_from_hex (payload_tag r)) (Buffer_from_hex (payload_ct r)) of
            None \<Rightarrow> Inl (DecryptionError ''Decryption failed: ciphertext or tag may be tampered'')
          | Some bs \<Rightarrow>
             (case JSON_parse N (utf8_decode N bs) of
                Inl msg \<Rightarrow> Inl (DecryptionError (''Decryption failed: '' @ msg))
              | Inr p \<Rightarrow> Inr \<lparr>tx_partyId = partyId r, tx_payload = p,
                              tx_createdAt = createdAt r\<rparr>)))"
  by (simp add: decryptTransaction_try_def decrypt_def split: option.splits sum.splits)

lemma opens_decrypt:
  assumes "opens_to N MK r bs"
  shows "decryptTransaction N MK r =
           (case JSON_parse N (utf8_decode N bs) of
              Inl msg \<Rightarrow> Inl (DecryptionError (''Decryption failed: '' @ msg))
            | Inr p \<Rightarrow> Inr \<lparr>tx_partyId = partyId r, tx_payload = p,
                            tx_createdAt = createdAt r\<rparr>)"
proof -
  from assms obtain dek where wf: "six_fields_well_formed r"
    and u: "aes_gcm_decrypt N MK (Buffer_from_hex (dek_wrap_nonce r))
              (Buffer_from_hex (dek_wrap_tag r)) (Buffer_from_hex (dek_wrapped r)) = Some dek"
    and p: "aes_gcm_decrypt N dek (Buffer_from_hex (payload_nonce r))
              (Buffer_from_hex (payload_tag r)) (Buffer_from_hex (payload_ct r)) = Some bs"
    by (auto simp: opens_to_def split: option.splits)
  show ?thesis
    unfolding decryptTransaction_well_formed [OF wf] decryptTransaction_try_bytes
    by (simp add: u p)
qed

lemma encryptTransaction_opens:
  assumes "gcm_correct N" and "length MK = 32"
    and "JSON_stringify N (req_payload req) = Some s" and "utf8_encode N s \<noteq> []"
  shows "\<exists>r g'. encryptTransaction N MK req now g = Inr (r, g') \<and>
           opens_to N MK r (utf8_encode N s) \<and> partyId r = req_partyId req \<and>
           createdAt r = now \<and> alg r = ''AES-256-GCM'' \<and> mk_version r = 1 \<and>
           length (Buffer_from_hex (dek_wrapped r)) = 32 \<and>
           Buffer_from_hex (payload_ct r) \<noteq> []"
proof -
  let ?dek = "fst (randomBytes 32 g)" and ?g1 = "snd (randomBytes 32 g)"
  have ld: "length ?dek = 32" by simp
  from encrypt_correct [OF assms(1) ld, of "utf8_encode N s" ?g1] obtain pc pt where
    e1: "encrypt N (utf8_encode N s) ?dek ?g1 =
           Inr ((Buffer_toString_hex (fst (randomBytes 12 ?g1)), Buffer_toString_hex pc,
                 Buffer_toString_hex pt), snd (randomBytes 12 ?g1))" and
    l1: "length pc = length (utf8_encode N s)" "length pt = 16" and
    d1: "aes_gcm_decrypt N ?dek (fst (randomBytes 12 ?g1)) pt pc = Some (utf8_encode N s)"
    by blast
  let ?g2 = "snd (randomBytes 12 ?g1)"
  from encrypt_correct [OF assms(1) assms(2), of ?dek ?g2] obtain wc wt where
    e2: "encrypt N ?dek MK ?g2 =
           Inr ((Buffer_toString_hex (fst (randomBytes 12 ?g2)), Buffer_toString_hex wc,
                 Buffer_toString_hex wt), snd (randomBytes 12 ?g2))" and
    l2: "length wc = length ?dek" "length wt = 16" and
    d2: "aes_gcm_decrypt N MK (fst (randomBytes 12 ?g2)) wt wc = Some ?dek"
    by blast
  let ?g3 = "snd (randomBytes 12 ?g2)"
  let ?r = "\<lparr>id_hex = Buffer_toString_hex (fst (randomBytes 16 ?g3)),
             partyId = req_partyId req, createdAt = now,
             payload_nonce = Buffer_toString_hex (fst (randomBytes 12 ?g1)),
             payload_ct = Buffer_toString_hex pc,
             payload_tag = Buffer_toString_hex pt,
             dek_wrap_nonce = Buffer_toString_hex (fst (randomBytes 12 ?g2)),
             dek_wrapped = Buffer_toString_hex wc,
             dek_wrap_tag = Buffer_toString_hex wt,
             alg = ''AES-256-GCM'', mk_version = 1\<rparr>"
  have enc: "encryptTransaction N MK req now g = Inr (?r, snd (randomBytes 16 ?g3))"
    using assms(3) e1 e2 by (simp add: encryptTransaction_def DEK_LENGTH_def split_beta)
  have pc: "pc \<noteq> []" using l1(1) assms(4) by auto
  have wc: "wc \<noteq> []" using l2(1) by auto
  have wf: "six_fields_well_formed ?r"
    using l1 l2 pc wc by (simp add: six_fields_well_formed_def)
  have "opens_to N MK ?r (utf8_encode N s)"
    using wf d1 d2 by (simp add: opens_to_def)
  with enc l2(1) pc show ?thesis by simp
qed

lemma tamper_valid [simp]: "isValidHex (tamper i s)"
  by (simp add: tamper_def)

lemma from_hex_tamper [simp]:
  "Buffer_from_hex (tamper i s) = flip_bit_at i (Buffer_from_hex s)"
  by (simp add: tamper_def)

lemma tamper_nonempty: "i < 8 * length (Buffer_from_hex s) \<Longrightarrow> tamper i s \<noteq> []"
proof -
  assume "i < 8 * length (Buffer_from_hex s)"
  then have "Buffer_from_hex s \<noteq> []" by (cases "Buffer_from_hex s") simp_all
  then have "flip_bit_at i (Buffer_from_hex s) \<noteq> []" by (simp add: flip_bit_at_def)
  then show ?thesis by (simp add: tamper_def)
qed

lemma opens_toD:
  assumes "opens_to N MK r bs"
  obtains dek where "six_fields_well_formed r"
    and "aes_gcm_decrypt N MK (Buffer_from_hex (dek_wrap_nonce r))
           (Buffer_from_hex (dek_wrap_tag r)) (Buffer_from_hex (dek_wrapped r)) = Some dek"
    and "aes_gcm_decrypt N dek (Buffer_from_hex (payload_nonce r))
           (Buffer_from_hex (payload_tag r)) (Buffer_from_hex (payload_ct r)) = Some bs"
  using assms by (auto simp: opens_to_def split: option.splits)

lemma tampered_payload_ct:
  assumes "opens_to N MK r bs" and "gcm_detects N"
    and "i < 8 * length (Buffer_from_hex (payload_ct r))"
  shows "decryptTransaction N MK (r\<lparr>payload_ct := tamper i (payload_ct r)\<rparr>)
           = Inl (DecryptionError ''Decryption failed: ciphertext or tag may be tampered'')"
proof -
  from assms(1) obtain dek where wf: "six_fields_well_formed r"
    and u: "aes_gcm_decrypt N MK (Buffer_from_hex (dek_wrap_nonce r))
              (Buffer_from_hex (dek_wrap_tag r)) (Buffer_from_hex (dek_wrapped r)) = Some dek"
    and p: "aes_gcm_decrypt N dek (Buffer_from_hex (payload_nonce r))
              (Buffer_from_hex (payload_tag r)) (Buffer_from_hex (payload_ct r)) = Some bs"
    by (rule opens_toD)
  let ?r = "r\<lparr>payload_ct := tamper i (payload_ct r)\<rparr>"
  have wf': "six_fields_well_formed ?r"
    using wf tamper_nonempty [OF assms(3)] by (simp add: six_fields_well_formed_def)
  have "aes_gcm_decrypt N dek (Buffer_from_hex (payload_nonce r))
          (Buffer_from_hex (payload_tag r)) (flip_bit_at i (Buffer_from_hex (payload_ct r))) = None"
    using assms(2,3) p unfolding gcm_detects_def by blast
  then show ?thesis
    unfolding decryptTransaction_well_formed [OF wf'] decryptTransaction_try_bytes
    by (simp add: u)
qed

lemma tampered_payload_tag:
  assumes "opens_to N MK r bs" and "gcm_detects N" and "i < 128"
  shows "decryptTransaction N MK (r\<lparr>payload_tag := tamper i (payload_tag r)\<rparr>)
           = Inl (DecryptionError ''Decryption failed: ciphertext or tag may be tampered'')"
proof -
  from assms(1) obtain dek where wf: "six_fields_well_formed r"
    and u: "aes_gcm_decrypt N MK (Buffer_from_hex (dek_wrap_nonce r))
              (Buffer_from_hex (dek_wrap_tag r)) (Buffer_from_hex (dek_wrapped r)) = Some dek"
    and p: "aes_gcm_decrypt N dek (Buffer_from_hex (payload_nonce r))
              (Buffer_from_hex (payload_tag r)) (Buffer_from_hex (payload_ct r)) = Some bs"
    by (rule opens_toD)
  let ?r = "r\<lparr>payload_tag := tamper i (payload_tag r)\<rparr>"
  have wf': "six_fields_well_formed ?r"
    using wf by (simp add: six_fields_well_formed_def)
  have i: "i < 8 * length (Buffer_from_hex (payload_tag r))"
    using wf assms(3) by (simp add: six_fields_well_formed_def)
  have "aes_gcm_decrypt N dek (Buffer_from_hex (payload_nonce r))
          (flip_bit_at i (Buffer_from_hex (payload_tag r))) (Buffer_from_hex (payload_ct r)) = None"
    using assms(2) i p unfolding gcm_detects_def by blast
  then show ?thesis
    unfolding decryptTransaction_well_formed [OF wf'] decryptTransaction_try_bytes
    by (simp add: u)
qed


lemma tampered_dek_wrapped:
  assumes "opens_to N MK r bs" and "gcm_detects N"
    and "i < 8 * length (Buffer_from_hex (dek_wrapped r))"
  shows "decryptTransaction N MK (r\<lparr>dek_wrapped := tamper i (dek_wrapped r)\<rparr>)
           = Inl (DecryptionError ''Decryption failed: ciphertext or tag may be tampered'')"
proof -
  from assms(1) obtain dek where wf: "six_fields_well_formed r"
    and u: "aes_gcm_decrypt N MK (Buffer_from_hex (dek_wrap_nonce r))
              (Buffer_from_hex (dek_wrap_tag r)) (Buffer_from_hex (dek_wrapped r)) = Some dek"
    by (rule opens_toD)
  let ?r = "r\<lparr>dek_wrapped := tamper i (dek_wrapped r)\<rparr>"
  have wf': "six_fields_well_formed ?r"
    using wf tamper_nonempty [OF assms(3)] by (simp add: six_fields_well_formed_def)
  have "aes_gcm_decrypt N MK (Buffer_from_hex (dek_wrap_nonce r))
          (Buffer_from_hex (dek_wrap_tag r)) (flip_bit_at i (Buffer_from_hex (dek_wrapped r))) = None"
    using assms(2,3) u unfolding gcm_detects_def by blast
  then show ?thesis
    unfolding decryptTransaction_well_formed [OF wf'] decryptTransaction_try_bytes
    by simp
qed

lemma tampered_dek_wrap_tag:
  assumes "opens_to N MK r bs" and "gcm_detects N" and "i < 128"
  shows "decryptTransaction N MK (r\<lparr>dek_wrap_tag := tamper i (dek_wrap_tag r)\<rparr>)
           = Inl (DecryptionError ''Decryption failed: ciphertext or tag may be tampered'')"
proof -
  from assms(1) obtain dek where wf: "six_fields_well_formed r"
    and u: "aes_gcm_decrypt N MK (Buffer_from_hex (dek_wrap_nonce r))
              (Buffer_from_hex (dek_wrap_tag r)) (Buffer_from_hex (dek_wrapped r)) = Some dek"
    by (rule opens_toD)
  let ?r = "r\<lparr>dek_wrap_tag := tamper i (dek_wrap_tag r)\<rparr>"
  have wf': "six_fields_well_formed ?r"
    using wf by (simp add: six_fields_well_formed_def)
  have i: "i < 8 * length (Buffer_from_hex (dek_wrap_tag r))"
    using wf assms(3) by (simp add: six_fields_well_formed_def)
  have "aes_gcm_decrypt N MK (Buffer_from_hex (dek_wrap_nonce r))
          (flip_bit_at i (Buffer_from_hex (dek_wrap_tag r))) (Buffer_from_hex (dek_wrapped r)) = None"
    using assms(2) i u unfolding gcm_detects_def by blast
  then show ?thesis
    unfolding decryptTransaction_well_formed [OF wf'] decryptTransaction_try_bytes
    by simp
qed


lemma produced_record_opens:
  assumes "gcm_correct N" and "length MK = 32" and "serializable N (req_payload req)"
    and "encryptTransaction N MK req now g = Inr (r, g')"
  shows "\<exists>s. JSON_stringify N (req_payload req) = Some s \<and>
             JSON_parse N (utf8_decode N (utf8_encode N s)) = Inr (req_payload req) \<and>
             opens_to N MK r (utf8_encode N s) \<and> partyId r = req_partyId req \<and>
             createdAt r = now \<and> length (Buffer_from_hex (dek_wrapped r)) = 32 \<and>
             Buffer_from_hex (payload_ct r) \<noteq> []"
proof -
  from assms(3) obtain s where
    s: "JSON_stringify N (req_payload req) = Some s" "utf8_encode N s \<noteq> []"
       "JSON_parse N (utf8_decode N (utf8_encode N s)) = Inr (req_payload req)"
    by (auto simp: serializable_def split: option.splits)
  from encryptTransaction_opens [OF assms(1,2) s(1,2), of now g] assms(4) s
  show ?thesis by auto
qed

lemma opens_to_same_fields:
  assumes "payload_nonce r' = payload_nonce r" and "payload_ct r' = payload_ct r"
    and "payload_tag r' = payload_tag r" and "dek_wrap_nonce r' = dek_wrap_nonce r"
    and "dek_wrapped r' = dek_wrapped r" and "dek_wrap_tag r' = dek_wrap_tag r"
  shows "opens_to N MK r' bs = opens_to N MK r bs"
  using assms by (simp add: opens_to_def six_fields_well_formed_def cong: option.case_cong)

subsection \<open>The record of the example request\<close>

lemma demo_draw_dek:
  "fst (randomBytes 32 demo_rng) =
     [11, 16, 21, 26, 31, 36, 41, 46, 51, 56, 61, 66, 71, 76, 81, 86, 91, 96,
      101, 106, 111, 116, 121, 126, 131, 136, 141, 146, 151, 156, 161, 166]"
  by (simp add: randomBytes_def demo_rng_def upt_rec)

lemma demo_draw_payload_nonce:
  "fst (randomBytes 12 (snd (randomBytes 32 demo_rng))) =
     [171, 176, 181, 186, 191, 196, 201, 206, 211, 216, 221, 226]"
  by (simp add: randomBytes_def demo_rng_def upt_rec)

lemma demo_draw_wrap_nonce:
  "fst (randomBytes 12 (snd (randomBytes 12 (snd (randomBytes 32 demo_rng))))) =
     [231, 236, 241, 246, 251, 0, 5, 10, 15, 20, 25, 30]"
  by (simp add: randomBytes_def demo_rng_def upt_rec)

lemma demo_draw_id:
  "fst (randomBytes 16 (snd (randomBytes 12 (snd (randomBytes 12 (snd (randomBytes 32 demo_rng))))))) =
     [35, 40, 45, 50, 55, 60, 65, 70, 75, 80, 85, 90, 95, 100, 105, 110]"
  by (simp add: randomBytes_def demo_rng_def upt_rec)

lemma demo_seal_payload:
  "demo_gcm_encrypt
     [11, 16, 21, 26, 31, 36, 41, 46, 51, 56, 61, 66, 71, 76, 81, 86, 91, 96,
      101, 106, 111, 116, 121, 126, 131, 136, 141, 146, 151, 156, 161, 166]
     [171, 176, 181, 186, 191, 196, 201, 206, 211, 216, 221, 226]
     [49, 48, 48, 48] =
   Inr ([13, 12, 12, 12],
        [97, 171, 176, 181, 186, 191, 196, 201, 206, 211, 216, 221, 226, 0, 0, 0])"
  by (simp add: demo_gcm_encrypt_def demo_tag_def)

lemma demo_seal_dek:
  "demo_gcm_encrypt demo_key
     [231, 236, 241, 246, 251, 0, 5, 10, 15, 20, 25, 30]
     [11, 16, 21, 26, 31, 36, 41, 46, 51, 56, 61, 66, 71, 76, 81, 86, 91, 96,
      101, 106, 111, 116, 121, 126, 131, 136, 141, 146, 151, 156, 161, 166] =
   Inr ([207, 212, 209, 222, 219, 224, 237, 234, 247, 252, 249, 134, 131, 136,
         149, 146, 159, 164, 161, 174, 171, 176, 189, 186, 71, 76, 73, 86, 83,
         88, 101, 98],
        [64, 231, 236, 241, 246, 251, 0, 5, 10, 15, 20, 25, 30, 0, 0, 0])"
  by (simp add: demo_gcm_encrypt_def demo_tag_def demo_key_def upt_rec)

lemma demo_hex:
  "Buffer_toString_hex [171, 176, 181, 186, 191, 196, 201, 206, 211, 216, 221, 226]
     = ''abb0b5babfc4c9ced3d8dde2''"
  "Buffer_toString_hex [13, 12, 12, 12] = ''0d0c0c0c''"
  "Buffer_toString_hex [97, 171, 176, 181, 186, 191, 196, 201, 206, 211, 216, 221, 226, 0, 0, 0]
     = ''61abb0b5babfc4c9ced3d8dde2000000''"
  "Buffer_toString_hex [231, 236, 241, 246, 251, 0, 5, 10, 15, 20, 25, 30]
     = ''e7ecf1f6fb00050a0f14191e''"
  "Buffer_toString_hex
     [207, 212, 209, 222, 219, 224, 237, 234, 247, 252, 249, 134, 131, 136,
      149, 146, 159, 164, 161, 174, 171, 176, 189, 186, 71, 76, 73, 86, 83,
      88, 101, 98]
     = ''cfd4d1dedbe0edeaf7fcf986838895929fa4a1aeabb0bdba474c495653586562''"
  "Buffer_toString_hex [64, 231, 236, 241, 246, 251, 0, 5, 10, 15, 20, 25, 30, 0, 0, 0]
     = ''40e7ecf1f6fb00050a0f14191e000000''"
  "Buffer_toString_hex [35, 40, 45, 50, 55, 60, 65, 70, 75, 80, 85, 90, 95, 100, 105, 110]
     = ''23282d32373c41464b50555a5f64696e''"
  by (simp_all add: Buffer_toString_hex_def hex_digit_def)

lemma demo_encrypt:
  "map_sum id fst (encryptTransaction demo_node demo_key demo_request demo_now demo_rng)
     = Inr demo_record"
proof -
  have s: "JSON_stringify demo_node (req_payload demo_request) = Some ''1000''"
    by (simp add: demo_node_def demo_request_def decimal_1000)
  have u: "utf8_encode demo_node ''1000'' = [49, 48, 48, 48]"
    by (simp add: demo_node_def)
  have e1: "aes_gcm_encrypt demo_node = demo_gcm_encrypt"
    by (simp add: demo_node_def)
  show ?thesis
    unfolding encryptTransaction_def encrypt_def DEK_LENGTH_def NONCE_LENGTH_def split_beta Let_def
      s option.case u e1 demo_draw_dek demo_draw_payload_nonce demo_draw_wrap_nonce demo_draw_id
      demo_seal_payload demo_seal_dek sum.case prod.case fst_conv snd_conv demo_hex
    by (simp add: demo_record_def demo_request_def demo_now_def)
qed

lemma demo_encrypt_Inr:
  "\<exists>g'. encryptTransaction demo_node demo_key demo_request demo_now demo_rng = Inr (demo_record, g')"
  using demo_encrypt
  by (cases "encryptTransaction demo_node demo_key demo_request demo_now demo_rng") auto

lemma demo_record_opens: "opens_to demo_node demo_key demo_record [49, 48, 48, 48]"
proof -
  from demo_encrypt_Inr obtain g' where
    e: "encryptTransaction demo_node demo_key demo_request demo_now demo_rng = Inr (demo_record, g')"
    by blast
  have s: "serializable demo_node (req_payload demo_request)"
    using demo_serializable by (simp add: demo_request_def)
  from produced_record_opens [OF demo_gcm_correct length_demo_key s e]
  show ?thesis by (auto simp: demo_node_def demo_request_def decimal_1000)
qed

lemma demo_parse_1000: "JSON_parse demo_node (utf8_decode demo_node [49, 48, 48, 48]) = Inr 1000"
proof -
  have "utf8_decode demo_node (utf8_encode demo_node ''1000'') = ''1000''"
    by (rule demo_utf8_roundtrip)
  moreover have "utf8_encode demo_node ''1000'' = [49, 48, 48, 48]"
    by (simp add: demo_node_def)
  moreover have "JSON_parse demo_node ''1000'' = Inr 1000"
    by (simp add: demo_node_def demo_JSON_parse_def is_digit_def)
  ultimately show ?thesis by simp
qed

subsection \<open>Round trip\<close>

text \<open>
  C1. For every JSON-serializable payload \<open>P\<close> and every \<open>partyId\<close> \<open>S\<close>,
  \<open>encryptTransaction\<close> of the request \<open>{partyId: S, payload: P}\<close> produces a record,
  and \<open>decryptTransaction\<close> of that record succeeds with payload \<open>P\<close> and
  \<open>partyId\<close> \<open>S\<close> (and the \<open>createdAt\<close> of the record). The cipher is assumed
  functionally correct and the master key to have 32 bytes.
\<close>

theorem encrypt_decrypt_roundtrip:
  assumes "gcm_correct N" and "length MASTER_KEY = 32" and "serializable N P"
  shows "\<exists>r g'. encryptTransaction N MASTER_KEY \<lparr>req_partyId = S, req_payload = P\<rparr> now g
                   = Inr (r, g') \<and>
                 decryptTransaction N MASTER_KEY r
                   = Inr \<lparr>tx_partyId = S, tx_payload = P, tx_createdAt = now\<rparr>"
proof -
  from assms(3) obtain s where
    s: "JSON_stringify N P = Some s" "utf8_encode N s \<noteq> []"
       "JSON_parse N (utf8_decode N (utf8_encode N s)) = Inr P"
    by (auto simp: serializable_def split: option.splits)
  from encryptTransaction_opens [OF assms(1,2), of "\<lparr>req_partyId = S, req_payload = P\<rparr>" s now g] s
  obtain r g' where
    e: "encryptTransaction N MASTER_KEY \<lparr>req_partyId = S, req_payload = P\<rparr> now g = Inr (r, g')"
    and o: "opens_to N MASTER_KEY r (utf8_encode N s)"
    and f: "partyId r = S" "createdAt r = now"
    by auto
  from opens_decrypt [OF o] s(3) f
  have "decryptTransaction N MASTER_KEY r = Inr \<lparr>tx_partyId = S, tx_payload = P, tx_createdAt = now\<rparr>"
    by simp
  with e show ?thesis by blast
qed

theorem encrypt_decrypt_roundtrip_witness:
  "gcm_correct demo_node \<and> length demo_key = 32 \<and> serializable demo_node 1000 \<and>
   map_sum id fst (encryptTransaction demo_node demo_key
       \<lparr>req_partyId = ''party-123'', req_payload = 1000\<rparr> demo_now demo_rng) = Inr demo_record \<and>
   decryptTransaction demo_node demo_key demo_record
     = Inr \<lparr>tx_partyId = ''party-123'', tx_payload = 1000, tx_createdAt = demo_now\<rparr>"
proof -
  from encrypt_decrypt_roundtrip [OF demo_gcm_correct length_demo_key demo_serializable,
      of "''party-123''" demo_now demo_rng]
  obtain r g' where
    e: "encryptTransaction demo_node demo_key \<lparr>req_partyId = ''party-123'', req_payload = 1000\<rparr>
          demo_now demo_rng = Inr (r, g')" and
    d: "decryptTransaction demo_node demo_key r
          = Inr \<lparr>tx_partyId = ''party-123'', tx_payload = 1000, tx_createdAt = demo_now\<rparr>"
    by blast
  from e demo_encrypt have "r = demo_record" by (simp add: demo_request_def)
  with d demo_encrypt demo_gcm_correct length_demo_key demo_serializable show ?thesis
    by (simp add: demo_request_def)
qed

subsection \<open>Tamper detection\<close>

text \<open>
  C2. For every record produced by \<open>encryptTransaction\<close>, flipping any single bit of
  the value of \<open>payload_ct\<close>, \<open>payload_tag\<close>, \<open>dek_wrapped\<close> or \<open>dek_wrap_tag\<close>
  makes \<open>decryptTransaction\<close> fail with \<open>DecryptionError\<close>; it returns no plaintext.
  The cipher is assumed to reject a ciphertext or tag with one bit flipped.
\<close>

theorem tampering_detected:
  assumes "gcm_correct N" and "gcm_detects N" and "length MASTER_KEY = 32"
    and "serializable N (req_payload req)"
    and "encryptTransaction N MASTER_KEY req now g = Inr (r, g')"
  shows
    "(i < 8 * length (Buffer_from_hex (payload_ct r)) \<longrightarrow>
        decryptTransaction N MASTER_KEY (r\<lparr>payload_ct := tamper i (payload_ct r)\<rparr>)
          = Inl (DecryptionError ''Decryption failed: ciphertext or tag may be tampered'')) \<and>
     (i < 128 \<longrightarrow>
        decryptTransaction N MASTER_KEY (r\<lparr>payload_tag := tamper i (payload_tag r)\<rparr>)
          = Inl (DecryptionError ''Decryption failed: ciphertext or tag may be tampered'')) \<and>
     (i < 256 \<longrightarrow>
        decryptTransaction N MASTER_KEY (r\<lparr>dek_wrapped := tamper i (dek_wrapped r)\<rparr>)
          = Inl (DecryptionError ''Decryption failed: ciphertext or tag may be tampered'')) \<and>
     (i < 128 \<longrightarrow>
        decryptTransaction N MASTER_KEY (r\<lparr>dek_wrap_tag := tamper i (dek_wrap_tag r)\<rparr>)
          = Inl (DecryptionError ''Decryption failed: ciphertext or tag may be tampered''))"
proof -
  from produced_record_opens [OF assms(1,3,4,5)] obtain s where
    o: "opens_to N MASTER_KEY r (utf8_encode N s)"
    and l: "length (Buffer_from_hex (dek_wrapped r)) = 32"
    by blast
  show ?thesis
    using tampered_payload_ct [OF o assms(2), of i] tampered_payload_tag [OF o assms(2), of i]
      tampered_dek_wrapped [OF o assms(2), of i] tampered_dek_wrap_tag [OF o assms(2), of i] l
    by simp
qed

theorem tampering_detected_witness:
  "decryptTransaction demo_node demo_key (demo_record\<lparr>payload_ct := ''0c0c0c0c''\<rparr>)
     = Inl (DecryptionError ''Decryption failed: ciphertext or tag may be tampered'') \<and>
   decryptTransaction demo_node demo_key
       (demo_record\<lparr>payload_tag := ''60abb0b5babfc4c9ced3d8dde2000000''\<rparr>)
     = Inl (DecryptionError ''Decryption failed: ciphertext or tag may be tampered'') \<and>
   decryptTransaction demo_node demo_key
       (demo_record\<lparr>dek_wrapped :=
          ''ced4d1dedbe0edeaf7fcf986838895929fa4a1aeabb0bdba474c495653586562''\<rparr>)
     = Inl (DecryptionError ''Decryption failed: ciphertext or tag may be tampered'') \<and>
   decryptTransaction demo_node demo_key
       (demo_record\<lparr>dek_wrap_tag := ''41e7ecf1f6fb00050a0f14191e000000''\<rparr>)
     = Inl (DecryptionError ''Decryption failed: ciphertext or tag may be tampered'')"
proof -
  from demo_encrypt_Inr obtain g' where
    e: "encryptTransaction demo_node demo_key demo_request demo_now demo_rng = Inr (demo_record, g')"
    by blast
  have s: "serializable demo_node (req_payload demo_request)"
    using demo_serializable by (simp add: demo_request_def)
  have t: "tamper 0 (payload_ct demo_record) = ''0c0c0c0c''"
    "tamper 0 (payload_tag demo_record) = ''60abb0b5babfc4c9ced3d8dde2000000''"
    "tamper 0 (dek_wrapped demo_record)
       = ''ced4d1dedbe0edeaf7fcf986838895929fa4a1aeabb0bdba474c495653586562''"
    "tamper 0 (dek_wrap_tag demo_record) = ''41e7ecf1f6fb00050a0f14191e000000''"
    by (simp_all add: tamper_def demo_record_def unhex_def flip_bit_at_def
        Buffer_toString_hex_def hex_digit_def)
  have b: "(0::nat) < 8 * length (Buffer_from_hex (payload_ct demo_record))"
    by (simp add: demo_record_def unhex_def)
  from tampering_detected [OF demo_gcm_correct demo_gcm_detects length_demo_key s e, of 0] b
  show ?thesis by (simp add: t)
qed

subsection \<open>What decryptTransaction validates\<close>

text \<open>
  C3, as claimed, fails: \<open>decryptTransaction\<close> makes the six field checks itself and
  never looks at \<open>alg\<close> and \<open>mk_version\<close>. A record with \<open>alg = "DES"\<close> and
  \<open>mk_version = 2\<close>, which \<open>validateRecord\<close> rejects, is decrypted.
\<close>

theorem decrypt_ignores_alg_counterexample:
  "alg (demo_record\<lparr>alg := ''DES'', mk_version := 2\<rparr>) \<noteq> ''AES-256-GCM'' \<and>
   mk_version (demo_record\<lparr>alg := ''DES'', mk_version := 2\<rparr>) \<noteq> 1 \<and>
   validateRecord (demo_record\<lparr>alg := ''DES'', mk_version := 2\<rparr>)
     = Inl (ValidationError ''Invalid algorithm'') \<and>
   decryptTransaction demo_node demo_key (demo_record\<lparr>alg := ''DES'', mk_version := 2\<rparr>)
     = Inr \<lparr>tx_partyId = ''party-123'', tx_payload = 1000,
            tx_createdAt = ''2026-02-12T00:00:00.000Z''\<rparr>"
proof -
  let ?r = "demo_record\<lparr>alg := ''DES'', mk_version := 2\<rparr>"
  have wf: "six_fields_well_formed ?r"
    using demo_record_well_formed by (simp add: six_fields_well_formed_def)
  have o: "opens_to demo_node demo_key ?r [49, 48, 48, 48]"
    using demo_record_opens by (simp add: opens_to_same_fields [of ?r demo_record])
  from opens_decrypt [OF o] demo_parse_1000 validateRecord_well_formed [OF wf]
  show ?thesis by (simp add: demo_record_def)
qed

lemma validateNonce_error: "validateNonce s f = Inl e \<Longrightarrow> \<exists>m. e = ValidationError m"
  by (auto simp: validateNonce_cases split: if_splits)

lemma validateTag_error: "validateTag s f = Inl e \<Longrightarrow> \<exists>m. e = ValidationError m"
  by (auto simp: validateTag_cases split: if_splits)

lemma validateCipherText_error: "validateCipherText s f = Inl e \<Longrightarrow> \<exists>m. e = ValidationError m"
  by (auto simp: validateCipherText_cases split: if_splits)

lemma and_then_cases:
  "and_then s k = Inl e \<longleftrightarrow> s = Inl e \<or> (s = Inr () \<and> k = Inl e)"
  by (cases s) simp_all

lemma six_checks:
  "first_failure (take 6 (checks_in_order r)) =
     and_then (validateNonce (payload_nonce r) ''payload_nonce'')
    (and_then (validateTag (payload_tag r) ''payload_tag'')
    (and_then (validateCipherText (payload_ct r) ''payload_ct'')
    (and_then (validateNonce (dek_wrap_nonce r) ''dek_wrap_nonce'')
    (and_then (validateTag (dek_wrap_tag r) ''dek_wrap_tag'')
    (and_then (validateCipherText (dek_wrapped r) ''dek_wrapped'') (Inr ()))))))"
  by (simp add: checks_in_order_def first_failure_Cons)

lemma six_checks_error:
  "first_failure (take 6 (checks_in_order r)) = Inl e \<Longrightarrow> \<exists>m. e = ValidationError m"
  unfolding six_checks and_then_cases
  by (auto dest: validateNonce_error validateTag_error validateCipherText_error)

lemma six_checks_ok:
  "first_failure (take 6 (checks_in_order r)) = Inr () \<longleftrightarrow> six_fields_well_formed r"
  unfolding six_checks six_fields_well_formed_iff
  by (auto simp: and_then_def split: sum.splits)

lemma six_checks_fail:
  "first_failure (take 6 (checks_in_order r)) = Inl e \<Longrightarrow> decryptTransaction N MK r = Inl e"
  unfolding six_checks decryptTransaction_def
  by (auto simp: and_then_def split: sum.splits)

text \<open>
  C3, amended. \<open>decryptTransaction\<close> makes the six field checks of \<open>validateRecord\<close>
  (nonce, tag and ciphertext of the payload and of the wrapped DEK) before any
  cryptographic operation: if one fails, the result is its \<open>ValidationError\<close>, whatever
  the cipher and the key; if none fails, the result is that of the \<open>try\<close> block. It
  does not check \<open>alg\<close> and \<open>mk_version\<close>: its result does not depend on them.
\<close>

theorem decryptTransaction_validates_six_fields:
  "decryptTransaction N MASTER_KEY (r\<lparr>alg := a, mk_version := v\<rparr>)
     = decryptTransaction N MASTER_KEY r \<and>
   (first_failure (take 6 (checks_in_order r)) = Inl e \<longrightarrow>
      decryptTransaction N MASTER_KEY r = Inl e \<and> (\<exists>m. e = ValidationError m)) \<and>
   (first_failure (take 6 (checks_in_order r)) = Inr () \<longrightarrow>
      decryptTransaction N MASTER_KEY r = decryptTransaction_try N MASTER_KEY r)"
proof (intro conjI impI)
  show "decryptTransaction N MASTER_KEY (r\<lparr>alg := a, mk_version := v\<rparr>)
          = decryptTransaction N MASTER_KEY r"
    by (simp add: decryptTransaction_def decryptTransaction_try_def cong: sum.case_cong)
next
  assume f: "first_failure (take 6 (checks_in_order r)) = Inl e"
  then show "decryptTransaction N MASTER_KEY r = Inl e" by (rule six_checks_fail)
  from f show "\<exists>m. e = ValidationError m" by (rule six_checks_error)
next
  assume "first_failure (take 6 (checks_in_order r)) = Inr ()"
  then have "six_fields_well_formed r" by (simp add: six_checks_ok)
  then show "decryptTransaction N MASTER_KEY r = decryptTransaction_try N MASTER_KEY r"
    by (rule decryptTransaction_well_formed)
qed

theorem decryptTransaction_validates_six_fields_witness:
  "first_failure (take 6 (checks_in_order (demo_record\<lparr>payload_tag := ''zz''\<rparr>)))
     = Inl (ValidationError ''payload_tag must be valid hex'') \<and>
   (decryptTransaction demo_node demo_key (demo_record\<lparr>payload_tag := ''zz''\<rparr>)
     :: error + nat DecryptedTx) = Inl (ValidationError ''payload_tag must be valid hex'') \<and>
   first_failure (take 6 (checks_in_order demo_record)) = Inr () \<and>
   decryptTransaction demo_node demo_key demo_record
     = decryptTransaction_try demo_node demo_key demo_record"
proof -
  have pn: "validateNonce (payload_nonce demo_record) ''payload_nonce'' = Inr ()"
    using demo_record_well_formed by (simp add: six_fields_well_formed_iff)
  have pt: "validateTag ''zz'' ''payload_tag'' = Inl (ValidationError ''payload_tag must be valid hex'')"
    by (simp add: validateTag_cases isValidHex_def in_hex_class_def)
  have a: "first_failure (take 6 (checks_in_order (demo_record\<lparr>payload_tag := ''zz''\<rparr>)))
     = Inl (ValidationError ''payload_tag must be valid hex'')"
    by (simp add: six_checks pn pt)
  have b: "first_failure (take 6 (checks_in_order demo_record)) = Inr ()"
    using demo_record_well_formed by (simp add: six_checks_ok)
  from a b
    decryptTransaction_validates_six_fields [where N = demo_node and MASTER_KEY = demo_key
      and r = "demo_record\<lparr>payload_tag := ''zz''\<rparr>"
      and e = "ValidationError ''payload_tag must be valid hex''"]
    decryptTransaction_validates_six_fields [where N = demo_node and MASTER_KEY = demo_key
      and r = demo_record]
  show ?thesis by simp
qed

subsection \<open>Failures after validation\<close>

text \<open>
  C7. Once the six fields have passed validation, every failure of \<open>decryptTransaction\<close>
  is a \<open>DecryptionError\<close>: a cipher failure while unwrapping the DEK, a cipher failure
  while decrypting the payload, and a failure to parse the decrypted bytes as JSON
  (then with the parser's message after "Decryption failed: "). It is never a
  \<open>ValidationError\<close> or another kind of error.
\<close>

theorem decode_failures_are_DecryptionError:
  assumes "six_fields_well_formed r"
  shows
    "(decryptTransaction N MASTER_KEY r = Inl e \<longrightarrow> (\<exists>m. e = DecryptionError m)) \<and>
     (aes_gcm_decrypt N MASTER_KEY (Buffer_from_hex (dek_wrap_nonce r))
         (Buffer_from_hex (dek_wrap_tag r)) (Buffer_from_hex (dek_wrapped r)) = None \<longrightarrow>
        decryptTransaction N MASTER_KEY r
          = Inl (DecryptionError ''Decryption failed: ciphertext or tag may be tampered'')) \<and>
     (aes_gcm_decrypt N MASTER_KEY (Buffer_from_hex (dek_wrap_nonce r))
         (Buffer_from_hex (dek_wrap_tag r)) (Buffer_from_hex (dek_wrapped r)) = Some dek \<and>
      aes_gcm_decrypt N dek (Buffer_from_hex (payload_nonce r))
         (Buffer_from_hex (payload_tag r)) (Buffer_from_hex (payload_ct r)) = None \<longrightarrow>
        decryptTransaction N MASTER_KEY r
          = Inl (DecryptionError ''Decryption failed: ciphertext or tag may be tampered'')) \<and>
     (aes_gcm_decrypt N MASTER_KEY (Buffer_from_hex (dek_wrap_nonce r))
         (Buffer_from_hex (dek_wrap_tag r)) (Buffer_from_hex (dek_wrapped r)) = Some dek \<and>
      aes_gcm_decrypt N dek (Buffer_from_hex (payload_nonce r))
         (Buffer_from_hex (payload_tag r)) (Buffer_from_hex (payload_ct r)) = Some bs \<and>
      JSON_parse N (utf8_decode N bs) = Inl msg \<longrightarrow>
        decryptTransaction N MASTER_KEY r
          = Inl (DecryptionError (''Decryption failed: '' @ msg)))"
  unfolding decryptTransaction_well_formed [OF assms] decryptTransaction_try_bytes
  by (auto split: option.splits sum.splits)

lemma demo_unwrap:
  "aes_gcm_decrypt demo_node demo_key (Buffer_from_hex (dek_wrap_nonce demo_record))
     (Buffer_from_hex (dek_wrap_tag demo_record)) (Buffer_from_hex (dek_wrapped demo_record))
   = Some [11, 16, 21, 26, 31, 36, 41, 46, 51, 56, 61, 66, 71, 76, 81, 86, 91, 96,
      101, 106, 111, 116, 121, 126, 131, 136, 141, 146, 151, 156, 161, 166]"
  by (simp add: demo_node_def demo_gcm_decrypt_def demo_tag_def demo_record_def demo_key_def
      unhex_def upt_rec)

theorem decode_failures_are_DecryptionError_witness:
  "decryptTransaction demo_node demo_key
       (demo_record\<lparr>dek_wrap_tag := ''00000000000000000000000000000000''\<rparr>)
     = (Inl (DecryptionError ''Decryption failed: ciphertext or tag may be tampered'')
         :: error + nat DecryptedTx) \<and>
   decryptTransaction demo_node demo_key
       (demo_record\<lparr>payload_tag := ''00000000000000000000000000000000''\<rparr>)
     = (Inl (DecryptionError ''Decryption failed: ciphertext or tag may be tampered'')
         :: error + nat DecryptedTx) \<and>
   decryptTransaction demo_node demo_key
       (demo_record\<lparr>payload_ct := ''5b535259'',
          payload_tag := ''63abb0b5babfc4c9ced3d8dde2000000''\<rparr>)
     = (Inl (DecryptionError ''Decryption failed: Unexpected token in JSON'')
         :: error + nat DecryptedTx)"
proof -
  let ?dek = "[11, 16, 21, 26, 31, 36, 41, 46, 51, 56, 61, 66, 71, 76, 81, 86, 91, 96,
      101, 106, 111, 116, 121, 126, 131, 136, 141, 146, 151, 156, 161, 166] :: buffer"
  let ?r1 = "demo_record\<lparr>dek_wrap_tag := ''00000000000000000000000000000000''\<rparr>"
  let ?r2 = "demo_record\<lparr>payload_tag := ''00000000000000000000000000000000''\<rparr>"
  let ?r3 = "demo_record\<lparr>payload_ct := ''5b535259'',
               payload_tag := ''63abb0b5babfc4c9ced3d8dde2000000''\<rparr>"
  have wf: "six_fields_well_formed ?r1" "six_fields_well_formed ?r2" "six_fields_well_formed ?r3"
    by (simp_all add: six_fields_well_formed_def demo_record_def isValidHex_def
        in_hex_class_def unhex_def)
  have u1: "aes_gcm_decrypt demo_node demo_key (Buffer_from_hex (dek_wrap_nonce ?r1))
      (Buffer_from_hex (dek_wrap_tag ?r1)) (Buffer_from_hex (dek_wrapped ?r1)) = None"
    by (simp add: demo_node_def demo_gcm_decrypt_def demo_tag_def demo_record_def unhex_def)
  have u2: "aes_gcm_decrypt demo_node demo_key (Buffer_from_hex (dek_wrap_nonce ?r2))
      (Buffer_from_hex (dek_wrap_tag ?r2)) (Buffer_from_hex (dek_wrapped ?r2)) = Some ?dek"
    using demo_unwrap by simp
  have p2: "aes_gcm_decrypt demo_node ?dek (Buffer_from_hex (payload_nonce ?r2))
      (Buffer_from_hex (payload_tag ?r2)) (Buffer_from_hex (payload_ct ?r2)) = None"
    by (simp add: demo_node_def demo_gcm_decrypt_def demo_tag_def demo_record_def unhex_def)
  have u3: "aes_gcm_decrypt demo_node demo_key (Buffer_from_hex (dek_wrap_nonce ?r3))
      (Buffer_from_hex (dek_wrap_tag ?r3)) (Buffer_from_hex (dek_wrapped ?r3)) = Some ?dek"
    using demo_unwrap by simp
  have p3: "aes_gcm_decrypt demo_node ?dek (Buffer_from_hex (payload_nonce ?r3))
      (Buffer_from_hex (payload_tag ?r3)) (Buffer_from_hex (payload_ct ?r3))
      = Some [103, 111, 110, 101]"
    by (simp add: demo_node_def demo_gcm_decrypt_def demo_tag_def demo_record_def unhex_def)
  have "utf8_decode demo_node (utf8_encode demo_node ''gone'') = ''gone''"
    by (rule demo_utf8_roundtrip)
  moreover have "utf8_encode demo_node ''gone'' = [103, 111, 110, 101]"
    by (simp add: demo_node_def)
  ultimately have "utf8_decode demo_node [103, 111, 110, 101] = ''gone''" by simp
  then have j3: "JSON_parse demo_node (utf8_decode demo_node [103, 111, 110, 101])
      = Inl ''Unexpected token in JSON''"
    by (simp add: demo_node_def demo_JSON_parse_def is_digit_def)
  from decode_failures_are_DecryptionError [OF wf(1), where N = demo_node
      and MASTER_KEY = demo_key] u1
  have a: "decryptTransaction demo_node demo_key ?r1
     = (Inl (DecryptionError ''Decryption failed: ciphertext or tag may be tampered'')
         :: error + nat DecryptedTx)"
    by blast
  from decode_failures_are_DecryptionError [OF wf(2), where N = demo_node
      and MASTER_KEY = demo_key and dek = ?dek] u2 p2
  have b: "decryptTransaction demo_node demo_key ?r2
     = (Inl (DecryptionError ''Decryption failed: ciphertext or tag may be tampered'')
         :: error + nat DecryptedTx)"
    by blast
  from decode_failures_are_DecryptionError [OF wf(3), where N = demo_node
      and MASTER_KEY = demo_key and dek = ?dek and bs = "[103, 111, 110, 101]"
      and msg = "''Unexpected token in JSON''"] u3 p3 j3
  have c: "decryptTransaction demo_node demo_key ?r3
     = (Inl (DecryptionError (''Decryption failed: '' @ ''Unexpected token in JSON''))
         :: error + nat DecryptedTx)"
    by blast
  from a b c show ?thesis by simp
qed

section \<open>The master key\<close>

lemma getMasterKey_env:
  "env_MASTER_KEY env = Some k \<Longrightarrow> k \<noteq> [] \<Longrightarrow> getMasterKey env g = (Buffer_from_hex k, env, g)"
  by (simp add: getMasterKey_def)

lemma getMasterKey_file:
  "env_MASTER_KEY env = None \<or> env_MASTER_KEY env = Some [] \<Longrightarrow> key_file env = Some c \<Longrightarrow>
   getMasterKey env g = (Buffer_from_hex (trim c), env, g)"
  by (auto simp: getMasterKey_def)

lemma isValidHex_append [simp]: "isValidHex (s @ t) \<longleftrightarrow> isValidHex s \<and> isValidHex t"
  by (simp add: isValidHex_def)

lemma from_hex_append:
  "isValidHex s \<Longrightarrow> even (length s) \<Longrightarrow> Buffer_from_hex (s @ t) = Buffer_from_hex s @ Buffer_from_hex t"
proof (induction s rule: Buffer_from_hex.induct)
  case (1 a b rest)
  from "1.prems" have a: "in_hex_class a" and b: "in_hex_class b" and r: "isValidHex rest"
    and e: "even (length rest)"
    by (simp_all add: isValidHex_def)
  from a obtain x where x: "unhex a = Some x" using unhex_iff [of a] by auto
  from b obtain y where y: "unhex b = Some y" using unhex_iff [of b] by auto
  from "1.IH" [OF x y r e] x y show ?case by simp
qed simp_all

text \<open>
  C4, as claimed, fails: \<open>getMasterKey\<close> has no check and no \<open>throw\<close>. A
  \<open>MASTER_KEY\<close> of 66 characters that ends in \<open>zz\<close> gives a 32-byte key, with which
  \<open>encryptTransaction\<close> then succeeds; a key file that holds no hex at all gives the
  empty key.
\<close>

theorem getMasterKey_malformed_counterexample:
  "\<not> isValidHex ''0123456789abcdef0123456789abcdef0123456789abcdef0123456789abcdefzz'' \<and>
   length ''0123456789abcdef0123456789abcdef0123456789abcdef0123456789abcdefzz'' = 66 \<and>
   fst (getMasterKey
         \<lparr>env_MASTER_KEY =
            Some ''0123456789abcdef0123456789abcdef0123456789abcdef0123456789abcdefzz'',
          key_file = None\<rparr> demo_rng)
     = [0x01, 0x23, 0x45, 0x67, 0x89, 0xab, 0xcd, 0xef, 0x01, 0x23, 0x45, 0x67, 0x89, 0xab, 0xcd, 0xef,
        0x01, 0x23, 0x45, 0x67, 0x89, 0xab, 0xcd, 0xef, 0x01, 0x23, 0x45, 0x67, 0x89, 0xab, 0xcd, 0xef] \<and>
   fst (getMasterKey \<lparr>env_MASTER_KEY = None, key_file = Some ''not a key''\<rparr> demo_rng) = [] \<and>
   \<not> isl (encryptTransaction demo_node
           (fst (getMasterKey
             \<lparr>env_MASTER_KEY =
                Some ''0123456789abcdef0123456789abcdef0123456789abcdef0123456789abcdefzz'',
              key_file = None\<rparr> demo_rng))
           demo_request demo_now demo_rng)"
proof -
  let ?k = "''0123456789abcdef0123456789abcdef0123456789abcdef0123456789abcdefzz''"
  let ?key = "[0x01, 0x23, 0x45, 0x67, 0x89, 0xab, 0xcd, 0xef, 0x01, 0x23, 0x45, 0x67, 0x89, 0xab, 0xcd, 0xef,
        0x01, 0x23, 0x45, 0x67, 0x89, 0xab, 0xcd, 0xef, 0x01, 0x23, 0x45, 0x67, 0x89, 0xab, 0xcd, 0xef] :: buffer"
  have a: "\<not> isValidHex ?k" by (simp add: isValidHex_def in_hex_class_def)
  have k: "fst (getMasterKey \<lparr>env_MASTER_KEY = Some ?k, key_file = None\<rparr> demo_rng) = ?key"
    by (simp add: getMasterKey_def unhex_def)
  have t: "trim ''not a key'' = ''not a key''"
    by (simp add: trim_def is_js_space_def)
  have f: "fst (getMasterKey \<lparr>env_MASTER_KEY = None, key_file = Some ''not a key''\<rparr> demo_rng) = []"
    by (simp add: getMasterKey_def t unhex_def)
  have s: "JSON_stringify demo_node (req_payload demo_request) = Some ''1000''"
    by (simp add: demo_node_def demo_request_def decimal_1000)
  have u: "utf8_encode demo_node ''1000'' \<noteq> []" by (simp add: demo_node_def)
  have l: "length ?key = 32" by simp
  from encryptTransaction_opens [OF demo_gcm_correct l s u, of demo_now demo_rng]
  have "\<not> isl (encryptTransaction demo_node ?key demo_request demo_now demo_rng)" by auto
  with a k f show ?thesis by simp
qed

text \<open>
  C4, amended. Master key resolution never fails on malformed hex. With \<open>MASTER_KEY\<close>
  set and not empty it returns \<open>Buffer.from(MASTER_KEY, "hex")\<close>, otherwise, when the
  key file exists, \<open>Buffer.from\<close> of its trimmed contents. That decoding stops at the
  first character that is not a hex digit and drops an unpaired last digit: the key has
  half as many bytes as the value has leading hex digits, rounded down. A well-formed
  value of 64 hex characters gives 32 bytes, and the hex encoding of a 32-byte key gives
  that key.
\<close>

theorem getMasterKey_lenient:
  "(env_MASTER_KEY env = Some k \<and> k \<noteq> [] \<longrightarrow>
      getMasterKey env g = (Buffer_from_hex k, env, g)) \<and>
   ((env_MASTER_KEY env = None \<or> env_MASTER_KEY env = Some []) \<and> key_file env = Some c \<longrightarrow>
      getMasterKey env g = (Buffer_from_hex (trim c), env, g)) \<and>
   Buffer_from_hex k = Buffer_from_hex (takeWhile in_hex_class k) \<and>
   length (Buffer_from_hex k) = length (takeWhile in_hex_class k) div 2 \<and>
   (isValidHex k \<and> length k = 64 \<longrightarrow> length (Buffer_from_hex k) = 32) \<and>
   (length key = 32 \<longrightarrow>
      length (Buffer_toString_hex key) = 64 \<and> isValidHex (Buffer_toString_hex key) \<and>
      fst (getMasterKey (env\<lparr>env_MASTER_KEY := Some (Buffer_toString_hex key)\<rparr>) g) = key)"
proof -
  have v: "isValidHex (takeWhile in_hex_class k)"
    by (simp add: isValidHex_iff) (meson set_takeWhileD)
  have "length (Buffer_from_hex k) = length (Buffer_from_hex (takeWhile in_hex_class k))"
    using from_hex_prefix [of k] by simp
  also have "\<dots> = length (takeWhile in_hex_class k) div 2"
    using v by (rule length_from_hex)
  finally have l: "length (Buffer_from_hex k) = length (takeWhile in_hex_class k) div 2" .
  have w: "length key = 32 \<longrightarrow>
      fst (getMasterKey (env\<lparr>env_MASTER_KEY := Some (Buffer_toString_hex key)\<rparr>) g) = key"
  proof
    assume "length key = 32"
    then have "Buffer_toString_hex key \<noteq> []" by auto
    then show "fst (getMasterKey (env\<lparr>env_MASTER_KEY := Some (Buffer_toString_hex key)\<rparr>) g) = key"
      by (simp add: getMasterKey_def)
  qed
  have e: "isValidHex k \<and> length k = 64 \<longrightarrow> length (Buffer_from_hex k) = 32"
    by (simp add: length_from_hex)
  have h: "length key = 32 \<longrightarrow>
      length (Buffer_toString_hex key) = 64 \<and> isValidHex (Buffer_toString_hex key)"
    by simp
  show ?thesis
    using l w e h from_hex_prefix [of k] getMasterKey_env [of env k g]
      getMasterKey_file [of env c g]
    by blast
qed

theorem getMasterKey_lenient_witness:
  "getMasterKey \<lparr>env_MASTER_KEY = Some ''0a0bzz'', key_file = Some ''ff''\<rparr> demo_rng
     = ([0x0a, 0x0b], \<lparr>env_MASTER_KEY = Some ''0a0bzz'', key_file = Some ''ff''\<rparr>, demo_rng) \<and>
   getMasterKey \<lparr>env_MASTER_KEY = None, key_file = Some '' 0c0d ''\<rparr> demo_rng
     = ([0x0c, 0x0d], \<lparr>env_MASTER_KEY = None, key_file = Some '' 0c0d ''\<rparr>, demo_rng) \<and>
   length (Buffer_from_hex ''0123456789abcdef0123456789ABCDEF0123456789abcdef0123456789ABCDEF'') = 32 \<and>
   fst (getMasterKey \<lparr>env_MASTER_KEY = Some (Buffer_toString_hex demo_key), key_file = None\<rparr>
          demo_rng) = demo_key"
proof -
  let ?e1 = "\<lparr>env_MASTER_KEY = Some ''0a0bzz'', key_file = Some ''ff''\<rparr>"
  let ?e2 = "\<lparr>env_MASTER_KEY = None, key_file = Some '' 0c0d ''\<rparr>"
  let ?k3 = "''0123456789abcdef0123456789ABCDEF0123456789abcdef0123456789ABCDEF''"
  have t: "trim '' 0c0d '' = ''0c0d''" by (simp add: trim_def is_js_space_def)
  have d1: "Buffer_from_hex ''0a0bzz'' = [0x0a, 0x0b]" by (simp add: unhex_def)
  have d2: "Buffer_from_hex ''0c0d'' = [0x0c, 0x0d]" by (simp add: unhex_def)
  have v: "isValidHex ?k3 \<and> length ?k3 = 64" by (simp add: isValidHex_def in_hex_class_def)
  have a: "getMasterKey ?e1 demo_rng = (Buffer_from_hex ''0a0bzz'', ?e1, demo_rng)"
    using getMasterKey_lenient [where env = ?e1 and k = "''0a0bzz''" and g = demo_rng]
    by (simp del: Buffer_from_hex.simps)
  have b: "getMasterKey ?e2 demo_rng = (Buffer_from_hex (trim '' 0c0d ''), ?e2, demo_rng)"
    using getMasterKey_lenient [where env = ?e2 and c = "'' 0c0d ''" and g = demo_rng]
    by (simp del: Buffer_from_hex.simps)
  have c: "length (Buffer_from_hex ?k3) = 32"
    using getMasterKey_lenient [where k = ?k3] v by blast
  have e: "fst (getMasterKey (\<lparr>env_MASTER_KEY = None, key_file = None\<rparr>
              \<lparr>env_MASTER_KEY := Some (Buffer_toString_hex demo_key)\<rparr>) demo_rng) = demo_key"
    using getMasterKey_lenient [where env = "\<lparr>env_MASTER_KEY = None, key_file = None\<rparr>"
        and key = demo_key and g = demo_rng] length_demo_key
    by blast
  from a b c e show ?thesis
    unfolding t d1 d2 by simp
qed

section \<open>Hex strings of odd length\<close>

text \<open>
  C10. The hex check accepts strings of odd length and the decoder drops the last
  unpaired character: a nonce of 25 hex digits decodes to 12 bytes and passes
  \<open>validateNonce\<close>. So a record that passes \<open>validateRecord\<close> with canonical fields
  still passes with one more hex digit at the end of each of its six cryptographic
  fields, and \<open>decryptTransaction\<close> gives the same result for both.
\<close>

theorem odd_length_hex_accepted:
  "(isValidHex s \<and> length s = 25 \<longrightarrow>
      length (Buffer_from_hex s) = 12 \<and> validateNonce s f = Inr ()) \<and>
   (validateRecord r = Inr () \<and> in_hex_class c \<and>
    length (payload_nonce r) = 24 \<and> length (dek_wrap_nonce r) = 24 \<and>
    length (payload_tag r) = 32 \<and> length (dek_wrap_tag r) = 32 \<and>
    even (length (payload_ct r)) \<and> even (length (dek_wrapped r)) \<longrightarrow>
      validateRecord
        (r\<lparr>payload_nonce := payload_nonce r @ [c], payload_ct := payload_ct r @ [c],
           payload_tag := payload_tag r @ [c], dek_wrap_nonce := dek_wrap_nonce r @ [c],
           dek_wrapped := dek_wrapped r @ [c], dek_wrap_tag := dek_wrap_tag r @ [c]\<rparr>) = Inr () \<and>
      decryptTransaction N MASTER_KEY
        (r\<lparr>payload_nonce := payload_nonce r @ [c], payload_ct := payload_ct r @ [c],
           payload_tag := payload_tag r @ [c], dek_wrap_nonce := dek_wrap_nonce r @ [c],
           dek_wrapped := dek_wrapped r @ [c], dek_wrap_tag := dek_wrap_tag r @ [c]\<rparr>)
        = decryptTransaction N MASTER_KEY r)"
proof (intro conjI impI)
  assume "isValidHex s \<and> length s = 25"
  then show "length (Buffer_from_hex s) = 12" and "validateNonce s f = Inr ()"
    by (simp_all add: validateNonce_ok length_from_hex)
next
  let ?r = "r\<lparr>payload_nonce := payload_nonce r @ [c], payload_ct := payload_ct r @ [c],
           payload_tag := payload_tag r @ [c], dek_wrap_nonce := dek_wrap_nonce r @ [c],
           dek_wrapped := dek_wrapped r @ [c], dek_wrap_tag := dek_wrap_tag r @ [c]\<rparr>"
  assume h: "validateRecord r = Inr () \<and> in_hex_class c \<and>
    length (payload_nonce r) = 24 \<and> length (dek_wrap_nonce r) = 24 \<and>
    length (payload_tag r) = 32 \<and> length (dek_wrap_tag r) = 32 \<and>
    even (length (payload_ct r)) \<and> even (length (dek_wrapped r))"
  have wf: "six_fields_well_formed r" and av: "alg r = ''AES-256-GCM''" "mk_version r = 1"
    using h
    by (auto simp: validateRecord_def six_fields_well_formed_iff and_then_def
        split: sum.splits if_splits)
  have c: "isValidHex [c]" using h by (simp add: isValidHex_def)
  have d: "Buffer_from_hex (payload_nonce r @ [c]) = Buffer_from_hex (payload_nonce r)"
    "Buffer_from_hex (dek_wrap_nonce r @ [c]) = Buffer_from_hex (dek_wrap_nonce r)"
    "Buffer_from_hex (payload_tag r @ [c]) = Buffer_from_hex (payload_tag r)"
    "Buffer_from_hex (dek_wrap_tag r @ [c]) = Buffer_from_hex (dek_wrap_tag r)"
    "Buffer_from_hex (payload_ct r @ [c]) = Buffer_from_hex (payload_ct r)"
    "Buffer_from_hex (dek_wrapped r @ [c]) = Buffer_from_hex (dek_wrapped r)"
    using wf h by (simp_all add: six_fields_well_formed_def from_hex_snoc)
  have wf': "six_fields_well_formed ?r"
    using wf c d by (simp add: six_fields_well_formed_def)
  show "validateRecord ?r = Inr ()"
    using validateRecord_well_formed [OF wf'] av by simp
  show "decryptTransaction N MASTER_KEY ?r = decryptTransaction N MASTER_KEY r"
    unfolding decryptTransaction_well_formed [OF wf'] decryptTransaction_well_formed [OF wf]
      decryptTransaction_try_bytes
    by (simp add: d cong: option.case_cong sum.case_cong)
qed

theorem odd_length_hex_accepted_witness:
  "length (Buffer_from_hex ''abb0b5babfc4c9ced3d8dde2f'') = 12 \<and>
   validateNonce ''abb0b5babfc4c9ced3d8dde2f'' ''payload_nonce'' = Inr () \<and>
   validateRecord
     (demo_record\<lparr>payload_nonce := ''abb0b5babfc4c9ced3d8dde2f'',
        payload_ct := ''0d0c0c0cf'',
        payload_tag := ''61abb0b5babfc4c9ced3d8dde2000000f'',
        dek_wrap_nonce := ''e7ecf1f6fb00050a0f14191ef'',
        dek_wrapped := ''cfd4d1dedbe0edeaf7fcf986838895929fa4a1aeabb0bdba474c495653586562f'',
        dek_wrap_tag := ''40e7ecf1f6fb00050a0f14191e000000f''\<rparr>) = Inr () \<and>
   decryptTransaction demo_node demo_key
     (demo_record\<lparr>payload_nonce := ''abb0b5babfc4c9ced3d8dde2f'',
        payload_ct := ''0d0c0c0cf'',
        payload_tag := ''61abb0b5babfc4c9ced3d8dde2000000f'',
        dek_wrap_nonce := ''e7ecf1f6fb00050a0f14191ef'',
        dek_wrapped := ''cfd4d1dedbe0edeaf7fcf986838895929fa4a1aeabb0bdba474c495653586562f'',
        dek_wrap_tag := ''40e7ecf1f6fb00050a0f14191e000000f''\<rparr>)
     = Inr \<lparr>tx_partyId = ''party-123'', tx_payload = 1000,
            tx_createdAt = ''2026-02-12T00:00:00.000Z''\<rparr>"
proof -
  have v: "isValidHex ''abb0b5babfc4c9ced3d8dde2f'' \<and> length ''abb0b5babfc4c9ced3d8dde2f'' = 25"
    by (simp add: isValidHex_def in_hex_class_def)
  have ok: "validateRecord demo_record = Inr ()"
    using validateRecord_well_formed [OF demo_record_well_formed] by (simp add: demo_record_def)
  have f: "in_hex_class (CHR ''f'')" by (simp add: in_hex_class_def)
  have l: "length (payload_nonce demo_record) = 24" "length (dek_wrap_nonce demo_record) = 24"
    "length (payload_tag demo_record) = 32" "length (dek_wrap_tag demo_record) = 32"
    "even (length (payload_ct demo_record))" "even (length (dek_wrapped demo_record))"
    by (simp_all add: demo_record_def)
  have dec: "decryptTransaction demo_node demo_key demo_record
     = Inr \<lparr>tx_partyId = ''party-123'', tx_payload = 1000,
            tx_createdAt = ''2026-02-12T00:00:00.000Z''\<rparr>"
    using opens_decrypt [OF demo_record_opens] demo_parse_1000 by (simp add: demo_record_def)
  from odd_length_hex_accepted [where s = "''abb0b5babfc4c9ced3d8dde2f''" and f = "''payload_nonce''"
      and r = demo_record and c = "CHR ''f''" and N = demo_node and MASTER_KEY = demo_key]
    v ok f l dec
  show ?thesis by (simp add: demo_record_def)
qed

section \<open>Which changes of a record are detected\<close>

subsection \<open>What decryptTransaction does with a changed field\<close>

lemma opens_to_same_bytes:
  assumes "six_fields_well_formed r'"
    and "Buffer_from_hex (payload_nonce r') = Buffer_from_hex (payload_nonce r)"
    and "Buffer_from_hex (payload_ct r') = Buffer_from_hex (payload_ct r)"
    and "Buffer_from_hex (payload_tag r') = Buffer_from_hex (payload_tag r)"
    and "Buffer_from_hex (dek_wrap_nonce r') = Buffer_from_hex (dek_wrap_nonce r)"
    and "Buffer_from_hex (dek_wrapped r') = Buffer_from_hex (dek_wrapped r)"
    and "Buffer_from_hex (dek_wrap_tag r') = Buffer_from_hex (dek_wrap_tag r)"
    and "opens_to N MK r bs"
  shows "opens_to N MK r' bs"
  using assms by (simp add: opens_to_def cong: option.case_cong)






subsection \<open>No cipher rejects every changed ciphertext\<close>

text \<open>
  The tag has 16 bytes and there are more payloads than tags. So for every functionally
  correct cipher, and every master key, \<open>partyId\<close>, time and entropy source, two
  payloads get the same tag; their records differ in \<open>payload_ct\<close> only, and the
  record of the one with the \<open>payload_ct\<close> of the other is decrypted, to the other
  payload. That some changed ciphertext is accepted is therefore a property of every
  cipher, not of the stand-in; which one is accepted depends on the cipher.
\<close>

lemma encryptTransaction_payload_independent:
  assumes "encryptTransaction N MK req now g = Inr (r, g1)"
    and "encryptTransaction N MK req' now g = Inr (r', g1')"
    and "req_partyId req' = req_partyId req"
  shows "r'\<lparr>payload_ct := payload_ct r, payload_tag := payload_tag r\<rparr> = r"
  using assms
  by (auto simp: encryptTransaction_def encrypt_def split_beta Let_def
      split: option.splits sum.splits)

lemma finite_strings_upto: "finite {s :: string. length s \<le> n}"
  using finite_lists_length_le [of "UNIV :: char set" n] by simp

lemma well_formed_tag_length:
  assumes "six_fields_well_formed r"
  shows "length (payload_tag r) \<le> 33"
proof -
  from assms have "isValidHex (payload_tag r)" and "length (Buffer_from_hex (payload_tag r)) = 16"
    by (simp_all add: six_fields_well_formed_def)
  then have "length (payload_tag r) div 2 = 16" by (simp add: length_from_hex)
  then show ?thesis by arith
qed

lemma changed_ciphertext_accepted:
  assumes c: "gcm_correct N" and l: "length MK = 32" and inf: "infinite {P. serializable N P}"
  shows "\<exists>P P' r g' x. serializable N P \<and> P' \<noteq> P \<and>
           encryptTransaction N MK \<lparr>req_partyId = S, req_payload = P\<rparr> now g = Inr (r, g') \<and>
           Buffer_from_hex x \<noteq> Buffer_from_hex (payload_ct r) \<and>
           decryptTransaction N MK (r\<lparr>payload_ct := x\<rparr>)
             = Inr \<lparr>tx_partyId = S, tx_payload = P', tx_createdAt = now\<rparr>"
proof -
  define R where
    "R P = fst (projr (encryptTransaction N MK \<lparr>req_partyId = S, req_payload = P\<rparr> now g))" for P
  have prod: "\<exists>g' s. encryptTransaction N MK \<lparr>req_partyId = S, req_payload = P\<rparr> now g = Inr (R P, g') \<and>
      opens_to N MK (R P) (utf8_encode N s) \<and>
      JSON_parse N (utf8_decode N (utf8_encode N s)) = Inr P \<and>
      partyId (R P) = S \<and> createdAt (R P) = now"
    if "serializable N P" for P
  proof -
    from that obtain s where
      s: "JSON_stringify N P = Some s" "utf8_encode N s \<noteq> []"
         "JSON_parse N (utf8_decode N (utf8_encode N s)) = Inr P"
      by (auto simp: serializable_def split: option.splits)
    from encryptTransaction_opens [OF c l, of "\<lparr>req_partyId = S, req_payload = P\<rparr>" s now g] s
    obtain r g' where
      e: "encryptTransaction N MK \<lparr>req_partyId = S, req_payload = P\<rparr> now g = Inr (r, g')"
      and o: "opens_to N MK r (utf8_encode N s)" and f: "partyId r = S" "createdAt r = now"
      by auto
    from e have "R P = r" by (simp add: R_def)
    with e o f s(3) show ?thesis by blast
  qed
  let ?A = "{P. serializable N P}"
  have "(\<lambda>P. payload_tag (R P)) ` ?A \<subseteq> {s. length s \<le> 33}"
  proof
    fix t assume "t \<in> (\<lambda>P. payload_tag (R P)) ` ?A"
    then obtain P where P: "serializable N P" and t: "t = payload_tag (R P)" by auto
    from prod [OF P] have "six_fields_well_formed (R P)" by (auto simp: opens_to_def)
    from well_formed_tag_length [OF this] t show "t \<in> {s. length s \<le> 33}" by simp
  qed
  then have "finite ((\<lambda>P. payload_tag (R P)) ` ?A)"
    by (rule finite_subset) (rule finite_strings_upto)
  with inf have "\<not> inj_on (\<lambda>P. payload_tag (R P)) ?A"
    using finite_imageD by blast
  then obtain P P' where P: "serializable N P" and P': "serializable N P'"
    and ne: "P' \<noteq> P" and tg: "payload_tag (R P') = payload_tag (R P)"
    by (auto simp: inj_on_def)
  from prod [OF P] obtain g1 s where
    e: "encryptTransaction N MK \<lparr>req_partyId = S, req_payload = P\<rparr> now g = Inr (R P, g1)"
    and o: "opens_to N MK (R P) (utf8_encode N s)"
    and j: "JSON_parse N (utf8_decode N (utf8_encode N s)) = Inr P"
    by blast
  from prod [OF P'] obtain g1' s' where
    e': "encryptTransaction N MK \<lparr>req_partyId = S, req_payload = P'\<rparr> now g = Inr (R P', g1')"
    and o': "opens_to N MK (R P') (utf8_encode N s')"
    and j': "JSON_parse N (utf8_decode N (utf8_encode N s')) = Inr P'"
    and f': "partyId (R P') = S" "createdAt (R P') = now"
    by blast
  have "(R P)\<lparr>payload_ct := payload_ct (R P'), payload_tag := payload_tag (R P')\<rparr> = R P'"
    using encryptTransaction_payload_independent [OF e' e] by simp
  with tg have sw: "(R P)\<lparr>payload_ct := payload_ct (R P')\<rparr> = R P'" by simp
  have dec: "decryptTransaction N MK ((R P)\<lparr>payload_ct := payload_ct (R P')\<rparr>)
               = Inr \<lparr>tx_partyId = S, tx_payload = P', tx_createdAt = now\<rparr>"
    using opens_decrypt [OF o'] j' f' by (simp add: sw)
  have "Buffer_from_hex (payload_ct (R P')) \<noteq> Buffer_from_hex (payload_ct (R P))"
  proof
    assume eq: "Buffer_from_hex (payload_ct (R P')) = Buffer_from_hex (payload_ct (R P))"
    have fs: "payload_nonce (R P') = payload_nonce (R P)"
      "dek_wrap_nonce (R P') = dek_wrap_nonce (R P)"
      "dek_wrapped (R P') = dek_wrapped (R P)"
      "dek_wrap_tag (R P') = dek_wrap_tag (R P)"
      using arg_cong [OF sw, of payload_nonce] arg_cong [OF sw, of dek_wrap_nonce]
        arg_cong [OF sw, of dek_wrapped] arg_cong [OF sw, of dek_wrap_tag]
      by simp_all
    from o' have wf': "six_fields_well_formed (R P')" by (simp add: opens_to_def)
    have "opens_to N MK (R P') (utf8_encode N s)"
      by (rule opens_to_same_bytes [OF wf' _ _ _ _ _ _ o]) (simp_all add: fs tg eq)
    from opens_decrypt [OF this] opens_decrypt [OF o'] j j' have "P = P'" by simp
    with ne show False by simp
  qed
  with P ne e dec show ?thesis by blast
qed

text \<open>
  The stand-in platform has infinitely many serializable payloads, and there the two
  payloads are found by hand: 1000 and 1011 get the same tag.
\<close>

lemma digit_chars: "list_all (\<lambda>d. is_digit (hex_digit d) \<and> (of_char (hex_digit d) :: nat) = 48 + d) [0..<10]"
  by code_simp

lemma digit_char: "d < 10 \<Longrightarrow> is_digit (hex_digit d) \<and> (of_char (hex_digit d) :: nat) = 48 + d"
  using digit_chars by (simp add: list_all_iff)

lemma decimal_parse:
  "decimal n \<noteq> [] \<and> list_all is_digit (decimal n) \<and>
   foldl (\<lambda>a c. 10 * a + (of_char c - 48)) 0 (decimal n) = n"
proof (induction n rule: decimal.induct)
  case (1 n)
  show ?case
  proof (cases "n < 10")
    case True
    with digit_char [of n] show ?thesis by (simp add: decimal.simps [of n])
  next
    case False
    have d: "n mod 10 < 10" by simp
    from "1.IH" [OF False] digit_char [OF d] False show ?thesis
      by (simp add: decimal.simps [of n])
  qed
qed

lemma demo_all_serializable: "serializable demo_node n"
proof -
  have s: "JSON_stringify demo_node n = Some (decimal n)"
    by (simp add: demo_node_def)
  have p: "JSON_parse demo_node (decimal n) = Inr n"
    using decimal_parse [of n] by (simp add: demo_node_def demo_JSON_parse_def)
  have u: "utf8_encode demo_node (decimal n) \<noteq> []"
    using decimal_parse [of n] by (simp add: demo_node_def)
  have r: "utf8_decode demo_node (utf8_encode demo_node (decimal n)) = decimal n"
    by (rule demo_utf8_roundtrip)
  show ?thesis
    unfolding serializable_def s option.case r using p u by simp
qed

lemma demo_infinitely_many_payloads: "infinite {P. serializable demo_node P}"
  by (simp add: demo_all_serializable)



subsection \<open>Which fields are authenticated\<close>




end
